theory Spec2Isabelle
  imports Complex_Main "HOL-Library.Monad_Syntax"
begin

section \<open>Tensors\<close>

text \<open>
  Tensors of floats are nested lists of reals: a rank-1 tensor is a \<open>vec\<close>, a rank-2
  tensor a list of rows, a rank-3 tensor a list of matrices. Arithmetic is exact (real
  numbers): rounding, infinities and NaN of the float32 tensors are not modelled.
\<close>

type_synonym vec = "real list"

section \<open>SSD output processing (\<open>build_image_ssd_embeddings\<close>)\<close>

subsection \<open>The four slices of one detector row\<close>

text \<open>
  One row of \<open>ssd_output\<close> is the vector of one prior of one image. The source slices it
  along the last axis; a negative bound counts from the end and is clamped at 0, which is
  what truncating subtraction on \<open>nat\<close> computes.
\<close>

definition mbox_loc :: "vec \<Rightarrow> vec" where
  \<comment> \<open>\<open>ssd_output[:, :, :4]\<close>\<close>
  "mbox_loc row = take 4 row"

definition variances :: "vec \<Rightarrow> vec" where
  \<comment> \<open>\<open>ssd_output[:, :, -4:]\<close>\<close>
  "variances row = drop (length row - 4) row"

definition mbox_priorbox :: "vec \<Rightarrow> vec" where
  \<comment> \<open>\<open>ssd_output[:, :, -8:-4]\<close>\<close>
  "mbox_priorbox row = drop (length row - 8) (take (length row - 4) row)"

definition mbox_conf :: "vec \<Rightarrow> vec" where
  \<comment> \<open>\<open>ssd_output[:, :, 4:-8]\<close>\<close>
  "mbox_conf row = drop 4 (take (length row - 8) row)"

subsection \<open>Box decoding\<close>

definition clip01 :: "real \<Rightarrow> real" where
  \<comment> \<open>\<open>tf.minimum(tf.maximum(x, 0.0), 1.0)\<close>\<close>
  "clip01 x = min (max x 0) 1"

text \<open>
  The decoding of one prior, lines 249 to 269 of the source, on the three 4-vectors of a
  row. The caller guarantees that each of them has four components.
\<close>

definition decode_bbox :: "vec \<Rightarrow> vec \<Rightarrow> vec \<Rightarrow> vec" where
  "decode_bbox loc priorbox var =
     (let prior_width = priorbox ! 2 - priorbox ! 0;
          prior_height = priorbox ! 3 - priorbox ! 1;
          prior_center_x = 0.5 * (priorbox ! 2 + priorbox ! 0);
          prior_center_y = 0.5 * (priorbox ! 3 + priorbox ! 1);
          decode_bbox_center_x = loc ! 0 * prior_width * var ! 0 + prior_center_x;
          decode_bbox_center_y = loc ! 1 * prior_width * var ! 1 + prior_center_y;
          decode_bbox_width = exp (loc ! 2 * var ! 2) * prior_width;
          decode_bbox_height = exp (loc ! 3 * var ! 3) * prior_height;
          decode_bbox_xmin = decode_bbox_center_x - 0.5 * decode_bbox_width;
          decode_bbox_ymin = decode_bbox_center_y - 0.5 * decode_bbox_height;
          decode_bbox_xmax = decode_bbox_center_x + 0.5 * decode_bbox_width;
          decode_bbox_ymax = decode_bbox_center_y + 0.5 * decode_bbox_height
      in map clip01 [decode_bbox_xmin, decode_bbox_ymin, decode_bbox_xmax, decode_bbox_ymax])"

text \<open>
  Indexing a slice at a fixed position (\<open>mbox_priorbox[:, :, 3]\<close>) is rejected when the
  slice is too short, so a row that does not hold the three 4-vectors has no decoded box.
\<close>

definition decode_row :: "vec \<Rightarrow> vec option" where
  "decode_row row =
     (if length (mbox_loc row) < 4 \<or> length (mbox_priorbox row) < 4
         \<or> length (variances row) < 4
      then None
      else Some (decode_bbox (mbox_loc row) (mbox_priorbox row) (variances row)))"

subsection \<open>The box decoder as the specification words it\<close>

text \<open>
  The formula of section 4.1 of the specification, written from its words, on a prior
  \<open>(px0, py0, px1, py1)\<close>, offsets \<open>(dx, dy, dw, dh)\<close> and variances \<open>(vx, vy, vw, vh)\<close>.
\<close>

definition spec_box_decoder ::
  "real \<times> real \<times> real \<times> real \<Rightarrow> real \<times> real \<times> real \<times> real \<Rightarrow> real \<times> real \<times> real \<times> real
     \<Rightarrow> real \<times> real \<times> real \<times> real" where
  "spec_box_decoder prior offsets vars =
     (case prior of (px0, py0, px1, py1) \<Rightarrow>
      case offsets of (dx, dy, dw, dh) \<Rightarrow>
      case vars of (vx, vy, vw, vh) \<Rightarrow>
        let prior_w = px1 - px0;
            prior_h = py1 - py0;
            cx = dx * prior_w * vx + 0.5 * (px1 + px0);
            cy = dy * prior_w * vy + 0.5 * (py1 + py0);
            w = exp (dw * vw) * prior_w;
            h = exp (dh * vh) * prior_h
        in (min (max (cx - w / 2) 0) 1, min (max (cy - h / 2) 0) 1,
            min (max (cx + w / 2) 0) 1, min (max (cy + h / 2) 0) 1))"

definition box_of_vec :: "vec \<Rightarrow> real \<times> real \<times> real \<times> real" where
  "box_of_vec b = (b ! 0, b ! 1, b ! 2, b ! 3)"

subsection \<open>Region selection\<close>

type_synonym box = vec

text \<open>
  \<open>tf.reduce_max(mbox_conf, 2)\<close> on one row. The maximum of no confidences is minus
  infinity, which is not a real number: such a row has no score.
\<close>

definition reduce_max :: "vec \<Rightarrow> real option" where
  "reduce_max xs = (case xs of [] \<Rightarrow> None | x # r \<Rightarrow> Some (fold max r x))"

definition mbox_conf_max :: "vec \<Rightarrow> real option" where
  "mbox_conf_max row = reduce_max (mbox_conf row)"

text \<open>
  \<open>tf.image.non_max_suppression(boxes, scores, max_output_size)\<close> is an operation of the
  TensorFlow library, called with its default overlap threshold 0.5. As the library
  documents it: the candidates are visited in descending order of score; a candidate is
  kept unless its intersection-over-union with a box kept before exceeds the threshold;
  the visit stops once \<open>min max_output_size (number of boxes)\<close> indices are kept. A box
  is read as two opposite corners in either order, and a box of no area overlaps nothing.
\<close>

definition box_area :: "box \<Rightarrow> real" where
  "box_area a =
     (max (a ! 0) (a ! 2) - min (a ! 0) (a ! 2)) * (max (a ! 1) (a ! 3) - min (a ! 1) (a ! 3))"

definition iou :: "box \<Rightarrow> box \<Rightarrow> real" where
  "iou a b =
     (if box_area a \<le> 0 \<or> box_area b \<le> 0 then 0
      else
        let intersection_ymin = max (min (a ! 0) (a ! 2)) (min (b ! 0) (b ! 2));
            intersection_xmin = max (min (a ! 1) (a ! 3)) (min (b ! 1) (b ! 3));
            intersection_ymax = min (max (a ! 0) (a ! 2)) (max (b ! 0) (b ! 2));
            intersection_xmax = min (max (a ! 1) (a ! 3)) (max (b ! 1) (b ! 3));
            intersection_area = max (intersection_ymax - intersection_ymin) 0
                                * max (intersection_xmax - intersection_xmin) 0
        in intersection_area / (box_area a + box_area b - intersection_area))"

fun nms_loop :: "box list \<Rightarrow> real \<Rightarrow> nat \<Rightarrow> nat list \<Rightarrow> nat list \<Rightarrow> nat list" where
  "nms_loop boxes iou_threshold output_size [] selected = selected"
| "nms_loop boxes iou_threshold output_size (c # cs) selected =
     (if output_size \<le> length selected then selected
      else if list_ex (\<lambda>s. iou_threshold < iou (boxes ! c) (boxes ! s)) selected
      then nms_loop boxes iou_threshold output_size cs selected
      else nms_loop boxes iou_threshold output_size cs (selected @ [c]))"

definition non_max_suppression :: "box list \<Rightarrow> vec \<Rightarrow> nat \<Rightarrow> nat list option" where
  "non_max_suppression boxes scores max_output_size =
     (if length scores \<noteq> length boxes then None
      else Some (nms_loop boxes 0.5 (min max_output_size (length boxes))
                   (sort_key (\<lambda>i. - (scores ! i)) [0..<length boxes]) []))"

text \<open>
  Lines 271 to 283 for one image: the rows of the image are decoded and scored,
  suppression keeps at most one index, and \<open>idx_item[0]\<close> reads it. Reading the first
  element of an empty index vector fails.
\<close>

definition select_region :: "vec list \<Rightarrow> box option" where
  "select_region rows =
     do {
       bboxes \<leftarrow> those (map decode_row rows);
       conf_max \<leftarrow> those (map mbox_conf_max rows);
       idx_item \<leftarrow> non_max_suppression bboxes conf_max 1;
       (case idx_item of [] \<Rightarrow> None | i # _ \<Rightarrow> Some (bboxes ! i))
     }"




section \<open>The inference drivers (\<open>run_inference.py\<close>, \<open>create_results.py\<close>)\<close>

text \<open>
  A caption hypothesis as the drivers read it: its token ids and its log probability.
  The beam search that produces the hypotheses, the vocabulary's \<open>id_to_word\<close> and the
  reading of an image file are parameters of the drivers.
\<close>

record caption =
  sentence :: "nat list"
  logprob :: real

record img_obj =
  img_id :: int
  file_name :: string

text \<open>\<open>caption.sentence[1:-1]\<close>: the slice from index 1 up to, not including, the last index.\<close>

definition ignore_begin_end :: "'a list \<Rightarrow> 'a list" where
  "ignore_begin_end s = drop 1 (take (length s - 1) s)"

text \<open>\<open>sep.join(words)\<close>\<close>

fun join :: "string \<Rightarrow> string list \<Rightarrow> string" where
  "join sep [] = []"
| "join sep [w] = w"
| "join sep (w # ws) = w @ sep @ join sep ws"

definition caption_string :: "(nat \<Rightarrow> string) \<Rightarrow> 'a caption_scheme \<Rightarrow> string" where
  "caption_string id_to_word c = join '' '' (map id_to_word (ignore_begin_end (sentence c)))"

text \<open>
  \<open>main\<close> of \<open>run_inference.py\<close>. For each file it prints one line per caption: the
  caption's index, its sentence and \<open>exp\<close> of its log probability. The model returns the
  three printed values of each line, grouped by file.
\<close>

definition run_inference_main ::
  "('image \<Rightarrow> caption list) \<Rightarrow> (nat \<Rightarrow> string) \<Rightarrow> (string \<Rightarrow> 'image) \<Rightarrow> string list
     \<Rightarrow> (string \<times> (nat \<times> string \<times> real) list) list" where
  "run_inference_main beam_search id_to_word gfile_read filenames =
     map (\<lambda>filename.
            let image = gfile_read filename;
                captions = beam_search image
            in (filename,
                map (\<lambda>(i, c). (i, caption_string id_to_word c, exp (logprob c)))
                    (enumerate 0 captions)))
         filenames"

text \<open>
  \<open>main\<close> of \<open>create_results.py\<close>. The loop runs over
  \<open>range(min(len(img_objs), eval_num))\<close>, which is empty for a negative bound; reading
  \<open>captions[0]\<close> of an empty list raises, and then nothing is written. The result is the
  list of records handed to \<open>json.dump\<close>, each an image id and a caption.
\<close>

definition create_results_main ::
  "('image \<Rightarrow> caption list) \<Rightarrow> (nat \<Rightarrow> string) \<Rightarrow> (string \<Rightarrow> 'image) \<Rightarrow> img_obj list \<Rightarrow> int
     \<Rightarrow> (int \<times> string) list option" where
  "create_results_main beam_search id_to_word gfile_read img_objs eval_num =
     those (map (\<lambda>i.
                   let image = gfile_read (file_name (img_objs ! i));
                       captions = beam_search image
                   in case captions of
                        [] \<Rightarrow> None
                      | c # _ \<Rightarrow> Some (img_id (img_objs ! i), caption_string id_to_word c))
                [0..<nat (min (int (length img_objs)) eval_num)])"

text \<open>
  A small instance of the parameters: a beam search that returns the same single
  hypothesis for every image, a vocabulary of two words, and two annotated images.
\<close>

definition example_beam_search :: "string \<Rightarrow> caption list" where
  "example_beam_search encoded_image = [\<lparr>sentence = [1, 5, 7, 2], logprob = 0\<rparr>]"

definition example_id_to_word :: "nat \<Rightarrow> string" where
  "example_id_to_word w = (if w = 5 then ''a'' else if w = 7 then ''cat'' else ''x'')"

definition example_img_objs :: "img_obj list" where
  "example_img_objs =
     [\<lparr>img_id = 10, file_name = ''a.jpg''\<rparr>, \<lparr>img_id = 11, file_name = ''b.jpg''\<rparr>]"

section \<open>The decoder (\<open>build_model\<close>)\<close>

datatype mode = Train | Eval | Inference

type_synonym matrix = "vec list"

text \<open>
  The configuration values and the learned variables that \<open>build_model\<close> reads. A weight
  matrix is kept as the list of its columns, so that a row vector times the matrix is one
  inner product per column.
\<close>

record config =
  num_lstm_units :: nat
  lstm_dropout_keep_prob :: real

record variables =
  lstm_kernel :: matrix
  lstm_bias :: vec
  logits_weights :: matrix
  logits_biases :: vec

subsection \<open>Library operations on tensors\<close>

definition concat_axis1 :: "matrix \<Rightarrow> matrix \<Rightarrow> matrix option" where
  \<comment> \<open>\<open>tf.concat([a, b], 1)\<close> on rank 2: the batch sizes must agree\<close>
  "concat_axis1 a b = (if length a = length b then Some (map2 (@) a b) else None)"

definition concat_axis2 :: "matrix list \<Rightarrow> matrix list \<Rightarrow> matrix list option" where
  \<comment> \<open>\<open>tf.concat([a, b], 2)\<close> on rank 3: the first two dimensions must agree\<close>
  "concat_axis2 a b =
     (if length a = length b \<and> list_all2 (\<lambda>x y. length x = length y) a b
      then Some (map2 (map2 (@)) a b) else None)"

definition expand_dims1 :: "matrix \<Rightarrow> matrix list" where
  \<comment> \<open>\<open>tf.expand_dims(t, 1)\<close>: \<open>[B, E]\<close> becomes \<open>[B, 1, E]\<close>\<close>
  "expand_dims1 t = map (\<lambda>row. [row]) t"

definition tile :: "nat \<Rightarrow> nat \<Rightarrow> nat \<Rightarrow> matrix list \<Rightarrow> matrix list" where
  \<comment> \<open>\<open>tf.tile(t, [m0, m1, m2])\<close> on rank 3: each axis repeated as a whole\<close>
  "tile m0 m1 m2 t =
     concat (replicate m0
       (map (\<lambda>mat. concat (replicate m1 (map (\<lambda>row. concat (replicate m2 row)) mat))) t))"

definition shape0 :: "'a list \<Rightarrow> nat" where
  \<comment> \<open>\<open>tf.shape(t)[0]\<close>\<close>
  "shape0 t = length t"

definition shape1 :: "'a list list \<Rightarrow> nat" where
  \<comment> \<open>\<open>tf.shape(t)[1]\<close>, read off the first entry; an empty batch has no entry to read\<close>
  "shape1 t = (case t of [] \<Rightarrow> 0 | x # _ \<Rightarrow> length x)"

definition squeeze1 :: "matrix list \<Rightarrow> matrix option" where
  \<comment> \<open>\<open>tf.squeeze(t, axis=[1])\<close>: dimension 1 must have size 1\<close>
  "squeeze1 t = (if \<forall>m\<in>set t. length m = 1 then Some (map hd t) else None)"

definition matmul_row :: "vec \<Rightarrow> matrix \<Rightarrow> vec" where
  "matmul_row x w = map (\<lambda>col. sum_list (map2 (*) x col)) w"

definition fully_connected :: "variables \<Rightarrow> vec \<Rightarrow> vec" where
  \<comment> \<open>the \<open>logits\<close> layer on one row: no activation, with biases\<close>
  "fully_connected vars x = map2 (+) (matmul_row x (logits_weights vars)) (logits_biases vars)"

definition softmax :: "vec \<Rightarrow> vec" where
  "softmax l = map (\<lambda>x. exp x / sum_list (map exp l)) l"

subsection \<open>The recurrent cell\<close>

definition sigmoid :: "real \<Rightarrow> real" where
  "sigmoid x = 1 / (1 + exp (- x))"

text \<open>
  \<open>tf.contrib.rnn.BasicLSTMCell(num_units, state_is_tuple=True)\<close> on one row of the batch;
  the state is the pair \<open>(c, h)\<close>. As the source's comment says, the cell has biases and
  outputs \<open>tanh(new_c) * sigmoid(o)\<close> (the output gate is \<open>og\<close> below); the library adds its default forget bias 1 to the
  forget gate.
\<close>

definition lstm_row :: "nat \<Rightarrow> variables \<Rightarrow> vec \<Rightarrow> vec \<times> vec \<Rightarrow> vec \<times> (vec \<times> vec)" where
  "lstm_row num_units vars inputs state =
     (case state of (c, h) \<Rightarrow>
        let gates = map2 (+) (matmul_row (inputs @ h) (lstm_kernel vars)) (lstm_bias vars);
            i = take num_units gates;
            j = take num_units (drop num_units gates);
            f = take num_units (drop (2 * num_units) gates);
            og = take num_units (drop (3 * num_units) gates);
            new_c = map2 (+) (map2 (*) c (map (\<lambda>x. sigmoid (x + 1)) f))
                             (map2 (*) (map sigmoid i) (map tanh j));
            new_h = map2 (*) (map tanh new_c) (map sigmoid og)
        in (new_h, (new_c, new_h)))"

definition BasicLSTMCell ::
  "nat \<Rightarrow> variables \<Rightarrow> matrix \<Rightarrow> matrix \<times> matrix \<Rightarrow> matrix \<times> (matrix \<times> matrix)" where
  "BasicLSTMCell num_units vars inputs state =
     (let rows = map (\<lambda>b. lstm_row num_units vars (inputs ! b) (fst state ! b, snd state ! b))
                     [0..<length inputs]
      in (map fst rows, (map (\<lambda>r. fst (snd r)) rows, map (\<lambda>r. snd (snd r)) rows)))"

text \<open>
  Randomness. A random operation of the graph draws a fresh tensor of uniform samples
  from [0, 1) each time it runs. The samples are the parameter \<open>rng\<close> (number of the draw,
  row, column); the number of draws made so far is the one piece of state that the
  graph keeps between runs, and every operation below takes it and returns it.
\<close>

type_synonym rng = "nat \<Rightarrow> nat \<Rightarrow> nat \<Rightarrow> real"

definition dropout :: "rng \<Rightarrow> real \<Rightarrow> matrix \<Rightarrow> nat \<Rightarrow> matrix \<times> nat" where
  \<comment> \<open>\<open>tf.nn.dropout(x, keep_prob)\<close>: \<open>x / keep_prob * floor(keep_prob + uniform)\<close>\<close>
  "dropout rng keep_prob x n =
     (map (\<lambda>b. map (\<lambda>i. x ! b ! i / keep_prob * of_int \<lfloor>keep_prob + rng n b i\<rfloor>)
                    [0..<length (x ! b)])
          [0..<length x],
      Suc n)"

type_synonym cell = "matrix \<Rightarrow> matrix \<times> matrix \<Rightarrow> nat \<Rightarrow> (matrix \<times> (matrix \<times> matrix)) \<times> nat"

text \<open>
  \<open>tf.contrib.rnn.DropoutWrapper(cell, input_keep_prob, output_keep_prob)\<close> with float
  keep probabilities, as the library defines it. Its constructor refuses a keep
  probability outside [0, 1] and the dropout operation refuses one that is not above 0,
  so there is a wrapped cell for keep probabilities in (0, 1] only. The wrapped cell
  applies dropout to its input and to its output, each only for a keep probability
  below 1.
\<close>

definition DropoutWrapper ::
  "(matrix \<Rightarrow> matrix \<times> matrix \<Rightarrow> matrix \<times> (matrix \<times> matrix)) \<Rightarrow> rng \<Rightarrow> real \<Rightarrow> real
     \<Rightarrow> cell option" where
  "DropoutWrapper cell rng input_keep_prob output_keep_prob =
     (if 0 < input_keep_prob \<and> input_keep_prob \<le> 1
         \<and> 0 < output_keep_prob \<and> output_keep_prob \<le> 1
      then Some (\<lambda>inputs state n.
        let (inputs', n1) = (if input_keep_prob < 1 then dropout rng input_keep_prob inputs n
                             else (inputs, n));
            (output, new_state) = cell inputs' state;
            (output', n2) = (if output_keep_prob < 1 then dropout rng output_keep_prob output n1
                             else (output, n1))
        in ((output', new_state), n2))
      else None)"

text \<open>
  Lines 343 to 349: the cell is wrapped in dropout in training mode only. Building the
  cell fails when the wrapper refuses the configured keep probability.
\<close>

definition lstm_cell :: "mode \<Rightarrow> config \<Rightarrow> variables \<Rightarrow> rng \<Rightarrow> cell option" where
  "lstm_cell mode cfg vars rng =
     (if mode = Train
      then DropoutWrapper (BasicLSTMCell (num_lstm_units cfg) vars) rng
             (lstm_dropout_keep_prob cfg) (lstm_dropout_keep_prob cfg)
      else Some (\<lambda>inputs state n. (BasicLSTMCell (num_lstm_units cfg) vars inputs state, n)))"

text \<open>
  \<open>tf.nn.dynamic_rnn(cell, inputs, sequence_length, initial_state)\<close>, batch-major, as
  the TensorFlow library defines it. At each time step the cell is applied to the whole
  batch; a row whose sequence has ended (\<open>time \<ge> sequence_length\<close>) emits a zero output
  and keeps its state. (The library skips the application once every sequence has
  ended, which changes no output and no state.)
\<close>

fun rnn_loop ::
  "cell \<Rightarrow> nat \<Rightarrow> nat list \<Rightarrow> matrix list \<Rightarrow> nat \<Rightarrow> matrix \<times> matrix \<Rightarrow> nat
     \<Rightarrow> (matrix list \<times> (matrix \<times> matrix)) \<times> nat" where
  "rnn_loop cell output_size sequence_length [] time state n = (([], state), n)"
| "rnn_loop cell output_size sequence_length (x # xs) time state n =
     (let ((output, new_state), n') = cell x state n;
          out = map (\<lambda>b. if time < sequence_length ! b then output ! b
                          else replicate output_size 0) [0..<length x];
          st = (map (\<lambda>b. if time < sequence_length ! b then fst new_state ! b else fst state ! b)
                    [0..<length x],
                map (\<lambda>b. if time < sequence_length ! b then snd new_state ! b else snd state ! b)
                    [0..<length x]);
          ((outs, final_state), n'') = rnn_loop cell output_size sequence_length xs (Suc time) st n'
      in ((out # outs, final_state), n''))"

definition dynamic_rnn ::
  "cell \<Rightarrow> nat \<Rightarrow> matrix list \<Rightarrow> nat list \<Rightarrow> matrix \<times> matrix \<Rightarrow> nat
     \<Rightarrow> (matrix list \<times> (matrix \<times> matrix)) \<times> nat" where
  "dynamic_rnn cell output_size inputs sequence_length initial_state n =
     (let time_steps = shape1 inputs;
          time_major = map (\<lambda>t. map (\<lambda>rows. rows ! t) inputs) [0..<time_steps];
          ((outs, final_state), n') =
             rnn_loop cell output_size sequence_length time_major 0 initial_state n
      in ((map (\<lambda>b. map (\<lambda>t. outs ! t ! b) [0..<time_steps]) [0..<length inputs], final_state),
          n'))"

subsection \<open>The loss operations\<close>

definition sparse_softmax_cross_entropy_with_logits :: "nat list \<Rightarrow> matrix \<Rightarrow> vec option" where
  \<comment> \<open>one loss per row, \<open>- ln (softmax logits ! label)\<close>; a label must index a class\<close>
  "sparse_softmax_cross_entropy_with_logits labels logits =
     (if length labels \<noteq> length logits
         \<or> (\<exists>i\<in>set [0..<length labels]. length (logits ! i) \<le> labels ! i) then None
      else Some (map (\<lambda>i. - ln (softmax (logits ! i) ! (labels ! i))) [0..<length labels]))"

definition multiply :: "vec \<Rightarrow> vec \<Rightarrow> vec option" where
  \<comment> \<open>\<open>tf.multiply\<close> on rank 1, with its broadcasting of a single element\<close>
  "multiply a b =
     (if length a = length b then Some (map2 (*) a b)
      else if length a = 1 then Some (map (\<lambda>y. hd a * y) b)
      else if length b = 1 then Some (map (\<lambda>x. x * hd b) a)
      else None)"

definition tf_div :: "real \<Rightarrow> real \<Rightarrow> real option" where
  \<comment> \<open>float division: a zero divisor gives an infinity or NaN, which is not a real\<close>
  "tf_div x y = (if y = 0 then None else Some (x / y))"

subsection \<open>\<open>build_model\<close>\<close>

text \<open>Lines 352 and 353: the fused image context.\<close>

definition image_embeddings_with_aspect :: "matrix \<Rightarrow> matrix \<Rightarrow> matrix option" where
  "image_embeddings_with_aspect image_embeddings region_aspect_embeddings =
     concat_axis1 image_embeddings region_aspect_embeddings"

text \<open>Lines 354 to 366: the sequence context.\<close>

definition seq_embeddings_with_aspect :: "mode \<Rightarrow> matrix \<Rightarrow> matrix list \<Rightarrow> matrix list option" where
  "seq_embeddings_with_aspect mode image_embeddings seq_embeddings =
     (let expand_region_aspect_embeddings = expand_dims1 image_embeddings;
          tile_expand_region_aspect_embeddings =
            (if mode = Inference
             then tile (shape0 seq_embeddings) 1 1 expand_region_aspect_embeddings
             else tile 1 (shape1 seq_embeddings) 1 expand_region_aspect_embeddings)
      in concat_axis2 seq_embeddings tile_expand_region_aspect_embeddings)"

text \<open>Lines 370 to 372: the image context sets the initial state of the cell.\<close>

definition zero_state :: "nat \<Rightarrow> nat \<Rightarrow> matrix \<times> matrix" where
  "zero_state num_units batch_size =
     (replicate batch_size (replicate num_units 0), replicate batch_size (replicate num_units 0))"

definition initial_state ::
  "mode \<Rightarrow> config \<Rightarrow> variables \<Rightarrow> rng \<Rightarrow> matrix \<Rightarrow> matrix \<Rightarrow> nat
     \<Rightarrow> ((matrix \<times> matrix) \<times> nat) option" where
  "initial_state mode cfg vars rng image_embeddings region_aspect_embeddings n =
     do {
       cell \<leftarrow> lstm_cell mode cfg vars rng;
       context \<leftarrow> image_embeddings_with_aspect image_embeddings region_aspect_embeddings;
       let ((output, state), n') =
             cell context (zero_state (num_lstm_units cfg) (length image_embeddings)) n;
       Some (state, n')
     }"

definition concat_state :: "matrix \<times> matrix \<Rightarrow> matrix" where
  \<comment> \<open>\<open>tf.concat(axis=1, values=state_tuple)\<close>\<close>
  "concat_state state = map2 (@) (fst state) (snd state)"

definition split_state_feed :: "config \<Rightarrow> matrix \<Rightarrow> (matrix \<times> matrix) option" where
  \<comment> \<open>the placeholder of shape \<open>[None, sum(state_size)]\<close> and \<open>tf.split(state_feed, 2, axis=1)\<close>\<close>
  "split_state_feed cfg state_feed =
     (if \<forall>row\<in>set state_feed. length row = num_lstm_units cfg + num_lstm_units cfg
      then Some (map (take (num_lstm_units cfg)) state_feed,
                 map (drop (num_lstm_units cfg)) state_feed)
      else None)"

text \<open>
  Inference mode, the operation named \<open>initial_state\<close> (line 380): the initial state of
  the cell, concatenated. Only the inference graph has it.
\<close>

definition build_model_initial_state ::
  "mode \<Rightarrow> config \<Rightarrow> variables \<Rightarrow> rng \<Rightarrow> matrix \<Rightarrow> matrix \<Rightarrow> nat \<Rightarrow> (matrix \<times> nat) option" where
  "build_model_initial_state mode cfg vars rng image_embeddings region_aspect_embeddings n =
     (if mode \<noteq> Inference then None
      else do {
        (state, n') \<leftarrow> initial_state mode cfg vars rng image_embeddings region_aspect_embeddings n;
        Some (concat_state state, n')
      })"

text \<open>
  Inference mode, one step (lines 383 to 394 and 406 to 417): from the fed states and the
  sequence context of the fed words to the operations \<open>softmax\<close> and \<open>state\<close>. The logits
  are returned with them. The result carries the number of random draws after the run.
\<close>

definition build_model_inference ::
  "mode \<Rightarrow> config \<Rightarrow> variables \<Rightarrow> rng \<Rightarrow> matrix \<Rightarrow> matrix list \<Rightarrow> matrix \<Rightarrow> nat
     \<Rightarrow> ((matrix \<times> matrix \<times> matrix) \<times> nat) option" where
  "build_model_inference mode cfg vars rng image_embeddings seq_embeddings state_feed n =
     (if mode \<noteq> Inference then None
      else do {
        cell \<leftarrow> lstm_cell mode cfg vars rng;
        seq_context \<leftarrow> seq_embeddings_with_aspect mode image_embeddings seq_embeddings;
        state_tuple \<leftarrow> split_state_feed cfg state_feed;
        inputs \<leftarrow> squeeze1 seq_context;
        (if length inputs \<noteq> length state_feed then None
         else
           let ((lstm_outputs, new_state), n') = cell inputs state_tuple n;
               logits = map (fully_connected vars) lstm_outputs
           in Some ((map softmax logits, concat_state new_state, logits), n'))
      })"

text \<open>Lines 419 to 427: the masked loss of training and evaluation.\<close>

definition batch_loss :: "matrix \<Rightarrow> nat list list \<Rightarrow> nat list list \<Rightarrow> (real \<times> vec \<times> vec) option" where
  "batch_loss logits target_seqs input_mask =
     (let targets = concat target_seqs;
          weights = map real (concat input_mask)
      in do {
        losses \<leftarrow> sparse_softmax_cross_entropy_with_logits targets logits;
        weighted \<leftarrow> multiply losses weights;
        loss \<leftarrow> tf_div (sum_list weighted) (sum_list weights);
        Some (loss, losses, weights)
      })"

text \<open>
  Training and evaluation mode (lines 396 to 439): the whole padded batch in one run.
  Token ids and mask entries are natural numbers, the mask being a 0/1 tensor. The
  result is the batch loss (to which the total loss adds the regularization losses of
  the other sub-networks), the losses and weights per token, and the logits, with the
  number of random draws after the run.
\<close>

definition build_model_unrolled ::
  "mode \<Rightarrow> config \<Rightarrow> variables \<Rightarrow> rng \<Rightarrow> matrix \<Rightarrow> matrix \<Rightarrow> matrix list
     \<Rightarrow> nat list list \<Rightarrow> nat list list \<Rightarrow> nat \<Rightarrow> (((real \<times> vec \<times> vec) \<times> matrix) \<times> nat) option" where
  "build_model_unrolled mode cfg vars rng image_embeddings region_aspect_embeddings seq_embeddings
       target_seqs input_mask n =
     (if mode = Inference then None
      else do {
        cell \<leftarrow> lstm_cell mode cfg vars rng;
        seq_context \<leftarrow> seq_embeddings_with_aspect mode image_embeddings seq_embeddings;
        (state, n1) \<leftarrow> initial_state mode cfg vars rng image_embeddings region_aspect_embeddings n;
        (if length input_mask \<noteq> length seq_context then None
         else
           let sequence_length = map sum_list input_mask;
               ((lstm_outputs, final_state), n2) =
                  dynamic_rnn cell (num_lstm_units cfg) seq_context sequence_length state n1;
               logits = map (fully_connected vars) (concat lstm_outputs)
           in do {
             loss \<leftarrow> batch_loss logits target_seqs input_mask;
             Some ((loss, logits), n2)
           })
      })"

subsection \<open>The stepwise protocol\<close>

text \<open>
  Modelled from the spec: the decoding driver (\<open>caption_generator.py\<close> and
  \<open>inference_wrapper.py\<close> of the repository) is not among the sources. As the
  specification describes the stepwise protocol, the driver reads the seeded initial
  state of the image, then feeds one word and the current flattened state per call and
  keeps the flattened state that the call returns for the next call. \<open>thread_steps\<close>
  runs the calls for one hypothesis over a sequence of word embeddings and collects the
  logits of every call.
\<close>

fun thread_steps ::
  "config \<Rightarrow> variables \<Rightarrow> rng \<Rightarrow> matrix \<Rightarrow> vec list \<Rightarrow> matrix \<Rightarrow> nat
     \<Rightarrow> ((matrix list \<times> matrix) \<times> nat) option" where
  "thread_steps cfg vars rng image_embeddings [] state n = Some (([], state), n)"
| "thread_steps cfg vars rng image_embeddings (w # ws) state n =
     do {
       ((softmax_out, new_state, logits), n') \<leftarrow>
          build_model_inference Inference cfg vars rng image_embeddings [[w]] state n;
       ((rest, final_state), n'') \<leftarrow> thread_steps cfg vars rng image_embeddings ws new_state n';
       Some ((logits # rest, final_state), n'')
     }"

text \<open>
  Modelled from the spec: the same driver, from the image to the logits of every call.
\<close>

definition stepwise_logits ::
  "config \<Rightarrow> variables \<Rightarrow> rng \<Rightarrow> matrix \<Rightarrow> matrix \<Rightarrow> vec list \<Rightarrow> nat \<Rightarrow> matrix list option" where
  "stepwise_logits cfg vars rng image_embeddings region_aspect_embeddings word_embeddings n =
     do {
       (state, n') \<leftarrow> build_model_initial_state Inference cfg vars rng image_embeddings
                        region_aspect_embeddings n;
       ((logits, final_state), n'') \<leftarrow>
          thread_steps cfg vars rng image_embeddings word_embeddings state n';
       Some logits
     }"

text \<open>The logits of a run in training or evaluation mode.\<close>

definition unrolled_logits ::
  "mode \<Rightarrow> config \<Rightarrow> variables \<Rightarrow> rng \<Rightarrow> matrix \<Rightarrow> matrix \<Rightarrow> matrix list
     \<Rightarrow> nat list list \<Rightarrow> nat list list \<Rightarrow> nat \<Rightarrow> matrix option" where
  "unrolled_logits mode cfg vars rng image_embeddings region_aspect_embeddings seq_embeddings
       target_seqs input_mask n =
     map_option (\<lambda>r. snd (fst r))
       (build_model_unrolled mode cfg vars rng image_embeddings region_aspect_embeddings
          seq_embeddings target_seqs input_mask n)"


subsection \<open>A small instance\<close>

text \<open>
  One LSTM unit whose kernel is zero and whose bias opens the candidate gate, a logits
  layer that is the identity on one class, a keep probability of one half, and a random
  source that returns the same sample at every draw.
\<close>

definition constant_rng :: "real \<Rightarrow> rng" where
  "constant_rng u draw row column = u"

definition example_config :: config where
  "example_config = \<lparr>num_lstm_units = 1, lstm_dropout_keep_prob = 1 / 2\<rparr>"

definition example_variables :: variables where
  "example_variables =
     \<lparr>lstm_kernel = [[0, 0, 0], [0, 0, 0], [0, 0, 0], [0, 0, 0]], lstm_bias = [0, 1, 0, 0],
      logits_weights = [[1]], logits_biases = [0]\<rparr>"

text \<open>
  A second instance, with a kernel that reads the input and the hidden state, and two
  classes.
\<close>

definition witness_config :: config where
  "witness_config = \<lparr>num_lstm_units = 1, lstm_dropout_keep_prob = 7 / 10\<rparr>"

definition witness_variables :: variables where
  "witness_variables =
     \<lparr>lstm_kernel = [[1, 0, 1], [0, 1, 1], [1, 1, 0], [1, 2, 3]], lstm_bias = [0, 1, 0, 0],
      logits_weights = [[1], [2]], logits_biases = [0, 1]\<rparr>"

section \<open>Properties of the box decoder\<close>

lemma slices_of_row:
  assumes "length loc = 4" "length pb = 4" "length var = 4"
  shows "mbox_loc (loc @ conf @ pb @ var) = loc"
    and "mbox_priorbox (loc @ conf @ pb @ var) = pb"
    and "variances (loc @ conf @ pb @ var) = var"
    and "mbox_conf (loc @ conf @ pb @ var) = conf"
  using assms
  by (simp_all add: mbox_loc_def mbox_priorbox_def variances_def mbox_conf_def)



text \<open>
  Claim C1. For every prior, offsets, variances (and whatever class confidences stand
  between them in the detector row) the decoded box is exactly the box of the
  specification's formula: centre and size from the prior and the variance-scaled
  offsets, the y-centre offset scaled by the prior's width, corners clipped to [0, 1].
  The right-hand side mentions nothing but the twelve numbers, so the box is a function
  of them alone.
\<close>

theorem C1_decode_matches_formula:
  "map_option box_of_vec
     (decode_row ([dx, dy, dw, dh] @ conf @ [px0, py0, px1, py1] @ [vx, vy, vw, vh]))
   = Some (spec_box_decoder (px0, py0, px1, py1) (dx, dy, dw, dh) (vx, vy, vw, vh))"
proof -
  let ?row = "[dx, dy, dw, dh] @ conf @ [px0, py0, px1, py1] @ [vx, vy, vw, vh]"
  have l: "mbox_loc ?row = [dx, dy, dw, dh]"
    and p: "mbox_priorbox ?row = [px0, py0, px1, py1]"
    and v: "variances ?row = [vx, vy, vw, vh]"
    by (rule slices_of_row; simp)+
  show ?thesis
    unfolding decode_row_def l p v
    by (simp add: decode_bbox_def spec_box_decoder_def box_of_vec_def clip01_def Let_def)
qed



section \<open>Properties of region selection\<close>

lemma those_map_Some:
  "(\<And>x. x \<in> set xs \<Longrightarrow> f x \<noteq> None) \<Longrightarrow> those (map f xs) = Some (map (\<lambda>x. the (f x)) xs)"
proof (induction xs)
  case Nil show ?case by simp
next
  case (Cons a xs)
  from Cons.prems [of a] obtain y where y: "f a = Some y" by auto
  have "those (map f xs) = Some (map (\<lambda>x. the (f x)) xs)"
    by (rule Cons.IH) (simp add: Cons.prems)
  with y show ?case by simp
qed

lemma decode_row_Some: "8 \<le> length row \<Longrightarrow> decode_row row \<noteq> None"
  by (simp add: decode_row_def mbox_loc_def mbox_priorbox_def variances_def)

lemma mbox_conf_max_Some: "13 \<le> length row \<Longrightarrow> mbox_conf_max row \<noteq> None"
  by (cases "mbox_conf row") (simp_all add: mbox_conf_max_def reduce_max_def mbox_conf_def)

lemma nms_one:
  assumes "length scores = length boxes" "boxes \<noteq> []"
  shows "\<exists>i<length boxes. non_max_suppression boxes scores 1 = Some [i]
           \<and> (\<forall>j<length boxes. scores ! j \<le> scores ! i)"
proof -
  let ?f = "\<lambda>i. - (scores ! i)"
  let ?cs = "sort_key ?f [0..<length boxes]"
  have "length ?cs = length boxes" by simp
  with assms obtain c rest where cs: "?cs = c # rest" by (cases ?cs) auto
  have "c \<in> set ?cs" by (simp add: cs)
  then have c: "c < length boxes" by simp
  have "sorted (map ?f ?cs)" by (rule sorted_sort_key)
  then have "\<forall>j\<in>set ?cs. ?f c \<le> ?f j" unfolding cs by auto
  then have mx: "\<forall>j<length boxes. scores ! j \<le> scores ! c" by simp
  have one: "min 1 (length boxes) = 1" using assms by (cases boxes) auto
  have "nms_loop boxes 0.5 1 (c # rest) [] = [c]" by (cases rest) simp_all
  then have "non_max_suppression boxes scores 1 = Some [c]"
    unfolding non_max_suppression_def cs one using assms by simp
  with c mx show ?thesis by blast
qed

lemma select_region_max:
  assumes ne: "rows \<noteq> []" and wf: "\<And>row. row \<in> set rows \<Longrightarrow> 13 \<le> length row"
  shows "\<exists>i<length rows. \<exists>b s. select_region rows = Some b \<and> decode_row (rows ! i) = Some b
           \<and> mbox_conf_max (rows ! i) = Some s
           \<and> (\<forall>j<length rows. \<forall>s'. mbox_conf_max (rows ! j) = Some s' \<longrightarrow> s' \<le> s)"
proof -
  let ?bb = "map (\<lambda>r. the (decode_row r)) rows"
  let ?cm = "map (\<lambda>r. the (mbox_conf_max r)) rows"
  have d: "decode_row row \<noteq> None" if "row \<in> set rows" for row
    using wf [OF that] by (intro decode_row_Some) simp
  have c: "mbox_conf_max row \<noteq> None" if "row \<in> set rows" for row
    using wf [OF that] by (rule mbox_conf_max_Some)
  have bb: "those (map decode_row rows) = Some ?bb" by (rule those_map_Some) (rule d)
  have cm: "those (map mbox_conf_max rows) = Some ?cm" by (rule those_map_Some) (rule c)
  have "length ?cm = length ?bb" "?bb \<noteq> []" using ne by simp_all
  from nms_one [OF this] obtain i where i: "i < length rows"
    and nms: "non_max_suppression ?bb ?cm 1 = Some [i]"
    and mx: "\<forall>j<length rows. ?cm ! j \<le> ?cm ! i" by auto
  have sel: "select_region rows = Some (?bb ! i)"
    unfolding select_region_def bb cm by (simp add: nms [simplified])
  have ri: "rows ! i \<in> set rows" using i by simp
  from d [OF ri] obtain b where b: "decode_row (rows ! i) = Some b" by auto
  from c [OF ri] obtain s where s: "mbox_conf_max (rows ! i) = Some s" by auto
  have "\<forall>j<length rows. \<forall>s'. mbox_conf_max (rows ! j) = Some s' \<longrightarrow> s' \<le> s"
  proof (intro allI impI)
    fix j s' assume j: "j < length rows" and s': "mbox_conf_max (rows ! j) = Some s'"
    from mx j have "?cm ! j \<le> ?cm ! i" by blast
    then show "s' \<le> s" using i j s s' by simp
  qed
  with i sel b s show ?thesis by (intro exI [of _ i]) (simp add: i)
qed



text \<open>
  Claim C9. For an image with at least one prior, the box that region selection returns
  is the decoded box of a prior whose maximal class confidence is the highest of all
  priors of the image: confidence-ranked suppression retaining one box keeps the
  candidate of highest confidence. In the scenario of two priors with overlapping boxes
  and confidences 0.9 and 0.1, the box of the prior with confidence 0.9 is selected.
\<close>

theorem C9_highest_confidence_selected:
  assumes "rows \<noteq> []" and "\<forall>row\<in>set rows. 13 \<le> length row"
  shows "\<exists>i<length rows. \<exists>b s.
           select_region rows = Some b \<and> decode_row (rows ! i) = Some b
           \<and> mbox_conf_max (rows ! i) = Some s
           \<and> (\<forall>j<length rows. \<forall>s'. mbox_conf_max (rows ! j) = Some s' \<longrightarrow> s' \<le> s)"
  using assms by (intro select_region_max) auto

theorem C9_highest_confidence_selected_witness:
  "select_region [[0, 0, 0, 0, 0.05, 0.9, 0, 0, 1, 1, 1, 1, 1, 1],
                  [0, 0, 0, 0, 0.1, 0.02, 0, 0, 1, 0.75, 1, 1, 1, 1]] = Some [0, 0, 1, 1]
   \<and> mbox_conf_max [0, 0, 0, 0, 0.05, 0.9, 0, 0, 1, 1, 1, 1, 1, 1] = Some 0.9
   \<and> mbox_conf_max [0, 0, 0, 0, 0.1, 0.02, 0, 0, 1, 0.75, 1, 1, 1, 1] = Some 0.1
   \<and> decode_row [0, 0, 0, 0, 0.05, 0.9, 0, 0, 1, 1, 1, 1, 1, 1] = Some [0, 0, 1, 1]
   \<and> decode_row [0, 0, 0, 0, 0.1, 0.02, 0, 0, 1, 0.75, 1, 1, 1, 1] = Some [0, 0, 1, 0.75]
   \<and> 0.5 < iou [0, 0, 1, 1] [0, 0, 1, 0.75]"
proof -
  let ?r0 = "[0, 0, 0, 0, 0.05, 0.9, 0, 0, 1, 1, 1, 1, 1, 1] :: vec"
  let ?r1 = "[0, 0, 0, 0, 0.1, 0.02, 0, 0, 1, 0.75, 1, 1, 1, 1] :: vec"
  have c0: "mbox_conf_max ?r0 = Some 0.9" and c1: "mbox_conf_max ?r1 = Some 0.1"
    by (simp_all add: mbox_conf_max_def mbox_conf_def reduce_max_def)
  have d0: "decode_row ?r0 = Some [0, 0, 1, 1]" and d1: "decode_row ?r1 = Some [0, 0, 1, 0.75]"
    by (simp_all add: decode_row_def mbox_loc_def mbox_priorbox_def variances_def
        decode_bbox_def clip01_def Let_def)
  have ov: "0.5 < iou [0, 0, 1, 1] [0, 0, 1, 0.75]"
    by (simp add: iou_def box_area_def Let_def)
  have "\<exists>i<length [?r0, ?r1]. \<exists>b s.
           select_region [?r0, ?r1] = Some b \<and> decode_row ([?r0, ?r1] ! i) = Some b
           \<and> mbox_conf_max ([?r0, ?r1] ! i) = Some s
           \<and> (\<forall>j<length [?r0, ?r1]. \<forall>s'.
                  mbox_conf_max ([?r0, ?r1] ! j) = Some s' \<longrightarrow> s' \<le> s)"
    by (rule C9_highest_confidence_selected) simp_all
  then obtain i b s where i: "i < length [?r0, ?r1]"
    and sel: "select_region [?r0, ?r1] = Some b"
    and dec: "decode_row ([?r0, ?r1] ! i) = Some b"
    and s: "mbox_conf_max ([?r0, ?r1] ! i) = Some s"
    and mx: "\<forall>j<length [?r0, ?r1]. \<forall>s'.
               mbox_conf_max ([?r0, ?r1] ! j) = Some s' \<longrightarrow> s' \<le> s"
    by blast
  have "i = 0"
  proof (rule ccontr)
    assume "i \<noteq> 0"
    with i have i1: "i = 1" by simp
    with s c1 have "s = 0.1" by simp
    moreover have "0 < length [?r0, ?r1]" by simp
    with mx have q: "\<forall>s'. mbox_conf_max ([?r0, ?r1] ! 0) = Some s' \<longrightarrow> s' \<le> s"
      by blast
    have "mbox_conf_max ([?r0, ?r1] ! 0) = Some 0.9" using c0 by simp
    from q [rule_format, OF this] have "0.9 \<le> s" .
    ultimately show False by simp
  qed
  with dec d0 have "b = [0, 0, 1, 1]" by simp
  with sel c0 c1 d0 d1 ov show ?thesis by simp
qed

section \<open>Properties of the inference drivers\<close>

lemma ignore_begin_end_nth: "ignore_begin_end s = map ((!) s) [1..<length s - 1]"
proof (rule nth_equalityI)
  show "length (ignore_begin_end s) = length (map ((!) s) [1..<length s - 1])"
    by (simp add: ignore_begin_end_def)
next
  fix i assume "i < length (ignore_begin_end s)"
  then have "i < length s - 1 - 1" by (simp add: ignore_begin_end_def)
  then show "ignore_begin_end s ! i = map ((!) s) [1..<length s - 1] ! i"
    by (simp add: ignore_begin_end_def)
qed

text \<open>
  Claim C10 as stated fails for a negative \<open>eval_num\<close>, which the integer flag admits:
  with two annotated images and \<open>eval_num = -1\<close> the loop over
  \<open>range(min(2, -1))\<close> is empty and no record is written, while
  \<open>min(2, -1)\<close> is \<open>-1\<close>.
\<close>

theorem C10_negative_eval_num_counterexample:
  "create_results_main example_beam_search example_id_to_word id example_img_objs (- 1) = Some []
   \<and> int (length ([] :: (int \<times> string) list)) \<noteq> min (int (length example_img_objs)) (- 1)"
  by (simp add: create_results_main_def example_img_objs_def)

text \<open>
  Claim C10, amended. Both drivers emit a caption as the words of its tokens without the
  first and the last one, joined by single spaces: the string is the join of the words of
  the tokens at positions 2 to n - 1 (indices 1 to n - 2) of the hypothesis, in
  \<open>run_inference.py\<close> for every hypothesis of every file and in \<open>create_results.py\<close>
  for the first hypothesis of every image. When the beam search returns at least one
  hypothesis per image, \<open>create_results.py\<close> writes exactly
  \<open>max 0 (min (number of annotated images) eval_num)\<close> records, for every integer
  \<open>eval_num\<close>.
\<close>

theorem C10_captions_without_begin_end:
  assumes "\<forall>obj\<in>set img_objs. beam_search (gfile_read (file_name obj)) \<noteq> []"
  shows "caption_string id_to_word c
           = join '' '' (map (\<lambda>k. id_to_word (sentence c ! k)) [1..<length (sentence c) - 1])
       \<and> (\<forall>f<length filenames. \<forall>i<length (beam_search (gfile_read (filenames ! f))).
             snd (run_inference_main beam_search id_to_word gfile_read filenames ! f) ! i
               = (i, caption_string id_to_word (beam_search (gfile_read (filenames ! f)) ! i),
                  exp (logprob (beam_search (gfile_read (filenames ! f)) ! i))))
       \<and> (\<exists>result.
             create_results_main beam_search id_to_word gfile_read img_objs eval_num = Some result
           \<and> int (length result) = max 0 (min (int (length img_objs)) eval_num)
           \<and> (\<forall>i<length result.
                 result ! i = (img_id (img_objs ! i),
                   caption_string id_to_word
                     (hd (beam_search (gfile_read (file_name (img_objs ! i))))))))"
proof (intro conjI)
  show "caption_string id_to_word c
          = join '' '' (map (\<lambda>k. id_to_word (sentence c ! k)) [1..<length (sentence c) - 1])"
    by (simp add: caption_string_def ignore_begin_end_nth comp_def)
next
  show "\<forall>f<length filenames. \<forall>i<length (beam_search (gfile_read (filenames ! f))).
             snd (run_inference_main beam_search id_to_word gfile_read filenames ! f) ! i
               = (i, caption_string id_to_word (beam_search (gfile_read (filenames ! f)) ! i),
                  exp (logprob (beam_search (gfile_read (filenames ! f)) ! i)))"
    by (simp add: run_inference_main_def Let_def nth_enumerate_eq)
next
  let ?n = "nat (min (int (length img_objs)) eval_num)"
  let ?g = "\<lambda>i. let image = gfile_read (file_name (img_objs ! i));
                       captions = beam_search image
                   in case captions of
                        [] \<Rightarrow> None
                      | c # _ \<Rightarrow> Some (img_id (img_objs ! i), caption_string id_to_word c)"
  have n: "?n \<le> length img_objs" by simp
  have g: "?g i = Some (img_id (img_objs ! i),
                   caption_string id_to_word (hd (beam_search (gfile_read (file_name (img_objs ! i))))))"
    if "i < ?n" for i
  proof -
    from that n have "img_objs ! i \<in> set img_objs" by simp
    with assms have "beam_search (gfile_read (file_name (img_objs ! i))) \<noteq> []" by blast
    then show ?thesis by (cases "beam_search (gfile_read (file_name (img_objs ! i)))") simp_all
  qed
  let ?r = "\<lambda>i. (img_id (img_objs ! i),
                 caption_string id_to_word (hd (beam_search (gfile_read (file_name (img_objs ! i))))))"
  have "those (map ?g [0..<?n]) = Some (map (\<lambda>x. the (?g x)) [0..<?n])"
    by (rule those_map_Some) (use g in force)
  moreover have "map (\<lambda>x. the (?g x)) [0..<?n] = map ?r [0..<?n]"
    by (rule map_cong [OF refl]) (use g in force)
  ultimately have res: "create_results_main beam_search id_to_word gfile_read img_objs eval_num
                    = Some (map ?r [0..<?n])"
    by (simp add: create_results_main_def)
  show "\<exists>result.
             create_results_main beam_search id_to_word gfile_read img_objs eval_num = Some result
           \<and> int (length result) = max 0 (min (int (length img_objs)) eval_num)
           \<and> (\<forall>i<length result.
                 result ! i = (img_id (img_objs ! i),
                   caption_string id_to_word
                     (hd (beam_search (gfile_read (file_name (img_objs ! i)))))))"
    unfolding res by simp
qed

theorem C10_captions_without_begin_end_witness:
  "caption_string example_id_to_word \<lparr>sentence = [1, 5, 7, 2], logprob = 0\<rparr> = ''a cat''
   \<and> create_results_main example_beam_search example_id_to_word id example_img_objs 1
       = Some [(10, ''a cat'')]
   \<and> create_results_main example_beam_search example_id_to_word id example_img_objs 5
       = Some [(10, ''a cat''), (11, ''a cat'')]
   \<and> create_results_main example_beam_search example_id_to_word id example_img_objs (- 3)
       = Some []"
proof -
  have ne: "\<forall>obj\<in>set example_img_objs. example_beam_search (id (file_name obj)) \<noteq> []"
    by (simp add: example_beam_search_def)
  have two: "[0..<2] = [0, Suc 0]" by (simp add: upt_rec numeral_2_eq_2)
  show ?thesis
    using C10_captions_without_begin_end [where img_objs = example_img_objs
        and beam_search = example_beam_search and gfile_read = id
        and id_to_word = example_id_to_word
        and c = "\<lparr>sentence = [1, 5, 7, 2], logprob = 0\<rparr>" and filenames = "[]"
        and eval_num = 5, OF ne]
    by (simp add: caption_string_def ignore_begin_end_def create_results_main_def
        example_beam_search_def example_id_to_word_def example_img_objs_def two)
qed

section \<open>Properties of the state serialization\<close>

text \<open>
  Claim C7. For every batch of flattened state vectors of length \<open>2H\<close>, splitting each
  at its midpoint into the two halves of the state tuple and concatenating the halves
  again gives back the batch that was fed: the serialization of the state round-trips as
  the identity.
\<close>

theorem C7_state_round_trip:
  assumes "\<forall>row\<in>set state_feed. length row = 2 * num_lstm_units cfg"
  shows "map_option concat_state (split_state_feed cfg state_feed) = Some state_feed"
proof -
  let ?H = "num_lstm_units cfg"
  have "map2 (@) (map (take ?H) state_feed) (map (drop ?H) state_feed) = state_feed"
    by (induction state_feed) simp_all
  with assms show ?thesis
    by (simp add: split_state_feed_def concat_state_def mult_2)
qed

theorem C7_state_round_trip_witness:
  "split_state_feed \<lparr>num_lstm_units = 2, lstm_dropout_keep_prob = 0.7\<rparr>
         [[1, 2, 3, 4], [5, 6, 7, 8]] = Some ([[1, 2], [5, 6]], [[3, 4], [7, 8]])
   \<and> concat_state ([[1, 2], [5, 6]], [[3, 4], [7, 8]]) = [[1, 2, 3, 4], [5, 6, 7, 8]]
   \<and> map_option concat_state
         (split_state_feed \<lparr>num_lstm_units = 2, lstm_dropout_keep_prob = 0.7\<rparr>
            [[1, 2, 3, 4], [5, 6, 7, 8]]) = Some [[1, 2, 3, 4], [5, 6, 7, 8]]"
  using C7_state_round_trip [of "[[1, 2, 3, 4], [5, 6, 7, 8]]"
      "\<lparr>num_lstm_units = 2, lstm_dropout_keep_prob = 0.7\<rparr>"]
  by (simp add: split_state_feed_def concat_state_def)

section \<open>Properties of the embedding fusion\<close>

lemma concat_replicate_single: "concat (replicate n [x]) = replicate n x"
  by (induction n) simp_all

lemma tile_unrolled: "tile 1 T 1 (expand_dims1 img) = map (\<lambda>r. replicate T r) img"
  by (simp add: tile_def expand_dims1_def comp_def concat_replicate_single)

lemma tile_stepwise: "tile n 1 1 (expand_dims1 [g]) = replicate n [g]"
  by (simp add: tile_def expand_dims1_def concat_replicate_single)

lemma shape1_uniform: "\<forall>m\<in>set t. length m = T \<Longrightarrow> t \<noteq> [] \<Longrightarrow> shape1 t = T"
  by (cases t) (simp_all add: shape1_def)

lemma seq_context_unrolled:
  assumes "mode \<noteq> Inference" and "length seq = length img" and "\<forall>m\<in>set seq. length m = T"
  shows "seq_embeddings_with_aspect mode img seq
           = Some (map (\<lambda>b. map (\<lambda>t. seq ! b ! t @ img ! b) [0..<T]) [0..<length seq])"
proof (cases "seq = []")
  case True
  with assms show ?thesis
    unfolding seq_embeddings_with_aspect_def Let_def tile_unrolled
    by (simp add: concat_axis2_def)
next
  case False
  with assms have s1: "shape1 seq = T" by (intro shape1_uniform) auto
  have la: "list_all2 (\<lambda>x y. length x = length y) seq (map (\<lambda>r. replicate T r) img)"
    using assms by (auto simp: list_all2_conv_all_nth)
  have "map2 (map2 (@)) seq (map (\<lambda>r. replicate T r) img)
          = map (\<lambda>b. map (\<lambda>t. seq ! b ! t @ img ! b) [0..<T]) [0..<length seq]"
    using assms by (intro nth_equalityI) (auto intro!: nth_equalityI)
  with assms la show ?thesis
    unfolding seq_embeddings_with_aspect_def Let_def tile_unrolled s1
    by (simp add: concat_axis2_def)
qed

lemma seq_context_stepwise:
  assumes "\<forall>m\<in>set seq. length m = 1"
  shows "seq_embeddings_with_aspect Inference [g] seq
           = Some (map (\<lambda>b. [seq ! b ! 0 @ g]) [0..<length seq])"
proof -
  have la: "list_all2 (\<lambda>x y. length x = length y) seq (replicate (length seq) [g])"
    using assms by (auto simp: list_all2_conv_all_nth)
  have "map2 (map2 (@)) seq (replicate (length seq) [g])
          = map (\<lambda>b. [seq ! b ! 0 @ g]) [0..<length seq]"
  proof (rule nth_equalityI)
    fix b assume "b < length (map2 (map2 (@)) seq (replicate (length seq) [g]))"
    then have b: "b < length seq" by simp
    with assms have "length (seq ! b) = 1" by simp
    then obtain x where "seq ! b = [x]" by (cases "seq ! b") auto
    with b show "map2 (map2 (@)) seq (replicate (length seq) [g]) ! b
                   = map (\<lambda>b. [seq ! b ! 0 @ g]) [0..<length seq] ! b" by simp
  qed simp
  with la show ?thesis
    unfolding seq_embeddings_with_aspect_def Let_def shape0_def tile_stepwise
    by (simp add: concat_axis2_def)
qed

text \<open>
  Claim C6. With global and region embeddings of length \<open>E\<close> and word embeddings of
  shape \<open>[batch, T, E]\<close>, for every batch size and every \<open>T\<close>: the fused image context
  of an image is its global embedding followed by its region embedding and has length
  \<open>2E\<close>; every row of the sequence context is the word embedding followed by the global
  image embedding and has length \<open>2E\<close>. In training and evaluation mode the global
  embedding of example \<open>b\<close> is repeated at every time step of example \<open>b\<close>; in inference
  mode (one image, one time step) the global embedding of the image is repeated for every
  row of the batch.
\<close>

theorem C6_fusion_shapes:
  assumes img: "\<forall>r\<in>set image_embeddings. length r = E"
    and reg: "length region_aspect_embeddings = length image_embeddings"
             "\<forall>r\<in>set region_aspect_embeddings. length r = E"
    and seq: "\<forall>m\<in>set seq_embeddings. length m = T \<and> (\<forall>r\<in>set m. length r = E)"
    and batch: "if mode = Inference then length image_embeddings = 1 \<and> T = 1
                else length seq_embeddings = length image_embeddings"
  shows "\<exists>context seq_context.
           image_embeddings_with_aspect image_embeddings region_aspect_embeddings = Some context
         \<and> seq_embeddings_with_aspect mode image_embeddings seq_embeddings = Some seq_context
         \<and> length context = length image_embeddings
         \<and> (\<forall>b<length image_embeddings.
               context ! b = image_embeddings ! b @ region_aspect_embeddings ! b
               \<and> length (context ! b) = 2 * E)
         \<and> length seq_context = length seq_embeddings
         \<and> (\<forall>b<length seq_embeddings. length (seq_context ! b) = T
               \<and> (\<forall>t<T. seq_context ! b ! t
                            = seq_embeddings ! b ! t
                              @ image_embeddings ! (if mode = Inference then 0 else b)
                          \<and> length (seq_context ! b ! t) = 2 * E))"
proof -
  have ctx: "image_embeddings_with_aspect image_embeddings region_aspect_embeddings
               = Some (map2 (@) image_embeddings region_aspect_embeddings)"
    using reg by (simp add: image_embeddings_with_aspect_def concat_axis1_def)
  have ctx_rows: "\<forall>b<length image_embeddings.
          map2 (@) image_embeddings region_aspect_embeddings ! b
            = image_embeddings ! b @ region_aspect_embeddings ! b
        \<and> length (map2 (@) image_embeddings region_aspect_embeddings ! b) = 2 * E"
    using img reg by simp
  let ?g = "\<lambda>b. image_embeddings ! (if mode = Inference then 0 else b)"
  have sc: "seq_embeddings_with_aspect mode image_embeddings seq_embeddings
              = Some (map (\<lambda>b. map (\<lambda>t. seq_embeddings ! b ! t @ ?g b) [0..<T])
                          [0..<length seq_embeddings])"
  proof (cases "mode = Inference")
    case True
    with batch obtain g where g: "image_embeddings = [g]" and T: "T = 1"
      by (cases image_embeddings) auto
    from seq T have "\<forall>m\<in>set seq_embeddings. length m = 1" by simp
    from seq_context_stepwise [OF this, of g] show ?thesis using True g T by simp
  next
    case False
    with batch have "length seq_embeddings = length image_embeddings" by simp
    from seq_context_unrolled [OF False this, of T] seq show ?thesis using False by simp
  qed
  have g_len: "length (?g b) = E" if "b < length seq_embeddings" for b
    using img batch that by (auto split: if_splits)
  have rows: "length (seq_embeddings ! b ! t @ ?g b) = 2 * E"
    if "b < length seq_embeddings" "t < T" for b t
  proof -
    from that have "seq_embeddings ! b \<in> set seq_embeddings" by simp
    with seq have "length (seq_embeddings ! b) = T"
      and "\<forall>r\<in>set (seq_embeddings ! b). length r = E" by blast+
    with that have "length (seq_embeddings ! b ! t) = E" by simp
    with g_len [OF that(1)] show ?thesis by simp
  qed
  let ?S = "map (\<lambda>b. map (\<lambda>t. seq_embeddings ! b ! t @ ?g b) [0..<T])
                [0..<length seq_embeddings]"
  have S_rows: "\<forall>b<length seq_embeddings. length (?S ! b) = T
                  \<and> (\<forall>t<T. ?S ! b ! t = seq_embeddings ! b ! t @ ?g b
                             \<and> length (?S ! b ! t) = 2 * E)"
  proof (intro allI impI conjI)
    fix b assume b: "b < length seq_embeddings"
    then show "length (?S ! b) = T" by simp
    fix t assume t: "t < T"
    from b t show "?S ! b ! t = seq_embeddings ! b ! t @ ?g b" by simp
    from b t have "?S ! b ! t = seq_embeddings ! b ! t @ ?g b" by simp
    with rows [OF b t] show "length (?S ! b ! t) = 2 * E" by (simp only:)
  qed
  show ?thesis
  proof (intro exI conjI)
    show "image_embeddings_with_aspect image_embeddings region_aspect_embeddings
            = Some (map2 (@) image_embeddings region_aspect_embeddings)" by (rule ctx)
    show "seq_embeddings_with_aspect mode image_embeddings seq_embeddings = Some ?S" by (rule sc)
    show "length (map2 (@) image_embeddings region_aspect_embeddings) = length image_embeddings"
      using reg by simp
    show "\<forall>b<length image_embeddings.
            map2 (@) image_embeddings region_aspect_embeddings ! b
              = image_embeddings ! b @ region_aspect_embeddings ! b
          \<and> length (map2 (@) image_embeddings region_aspect_embeddings ! b) = 2 * E"
      by (rule ctx_rows)
    show "length ?S = length seq_embeddings" by simp
    show "\<forall>b<length seq_embeddings. length (?S ! b) = T
                  \<and> (\<forall>t<T. ?S ! b ! t = seq_embeddings ! b ! t @ ?g b
                             \<and> length (?S ! b ! t) = 2 * E)" by (rule S_rows)
  qed
qed

theorem C6_fusion_shapes_witness:
  "image_embeddings_with_aspect [[1], [2]] [[3], [4]] = Some [[1, 3], [2, 4]]
   \<and> seq_embeddings_with_aspect Eval [[1], [2]] [[[5], [6], [7]], [[8], [9], [10]]]
       = Some [[[5, 1], [6, 1], [7, 1]], [[8, 2], [9, 2], [10, 2]]]
   \<and> seq_embeddings_with_aspect Inference [[1]] [[[5]], [[6]], [[7]]]
       = Some [[[5, 1]], [[6, 1]], [[7, 1]]]"
proof -
  have "\<exists>context seq_context.
           image_embeddings_with_aspect [[1], [2]] [[3], [4]] = Some context
         \<and> seq_embeddings_with_aspect Eval [[1], [2]] [[[5], [6], [7]], [[8], [9], [10]]]
             = Some seq_context
         \<and> length context = length [[1], [2 :: real]]
         \<and> (\<forall>b<length [[1], [2 :: real]].
               context ! b = [[1], [2]] ! b @ [[3], [4]] ! b \<and> length (context ! b) = 2 * 1)
         \<and> length seq_context = length [[[5], [6], [7]], [[8], [9], [10 :: real]]]
         \<and> (\<forall>b<length [[[5], [6], [7]], [[8], [9], [10 :: real]]]. length (seq_context ! b) = 3
               \<and> (\<forall>t<3. seq_context ! b ! t
                            = [[[5], [6], [7]], [[8], [9], [10]]] ! b ! t
                              @ [[1], [2]] ! (if Eval = Inference then 0 else b)
                          \<and> length (seq_context ! b ! t) = 2 * 1))"
    by (rule C6_fusion_shapes) simp_all
  then have a: "image_embeddings_with_aspect [[1], [2]] [[3], [4]] \<noteq> None"
    and b: "seq_embeddings_with_aspect Eval [[1], [2]] [[[5], [6], [7]], [[8], [9], [10]]] \<noteq> None"
    by auto
  have "\<exists>context seq_context.
           image_embeddings_with_aspect [[1]] [[3]] = Some context
         \<and> seq_embeddings_with_aspect Inference [[1]] [[[5]], [[6]], [[7]]] = Some seq_context
         \<and> length context = length [[1 :: real]]
         \<and> (\<forall>b<length [[1 :: real]].
               context ! b = [[1]] ! b @ [[3]] ! b \<and> length (context ! b) = 2 * 1)
         \<and> length seq_context = length [[[5]], [[6]], [[7 :: real]]]
         \<and> (\<forall>b<length [[[5]], [[6]], [[7 :: real]]]. length (seq_context ! b) = 1
               \<and> (\<forall>t<1. seq_context ! b ! t
                            = [[[5]], [[6]], [[7]]] ! b ! t
                              @ [[1]] ! (if Inference = Inference then 0 else b)
                          \<and> length (seq_context ! b ! t) = 2 * 1))"
    by (rule C6_fusion_shapes) simp_all
  then have c: "seq_embeddings_with_aspect Inference [[1]] [[[5]], [[6]], [[7]]] \<noteq> None"
    by auto
  from a b c show ?thesis
    by (simp add: image_embeddings_with_aspect_def concat_axis1_def
          seq_embeddings_with_aspect_def expand_dims1_def tile_def shape0_def shape1_def
          concat_axis2_def numeral_3_eq_3)
qed

section \<open>Properties of the masked loss\<close>

lemma map2_conv_nth:
  "length xs = n \<Longrightarrow> length ys = n \<Longrightarrow> map2 f xs ys = map (\<lambda>i. f (xs ! i) (ys ! i)) [0..<n]"
  by (rule nth_equalityI) simp_all

lemma sum_list_real: "sum_list (map real ws) = real (sum_list ws)"
  by (induction ws) simp_all

lemma batch_loss_value:
  assumes lt: "length (concat target_seqs) = length logits"
    and lm: "length (concat input_mask) = length logits"
    and valid: "\<forall>i<length logits. concat target_seqs ! i < length (logits ! i)"
  shows "map_option fst (batch_loss logits target_seqs input_mask)
           = tf_div (sum_list (map (\<lambda>i. - ln (softmax (logits ! i) ! (concat target_seqs ! i))
                                          * real (concat input_mask ! i)) [0..<length logits]))
                    (sum_list (map real (concat input_mask)))"
proof -
  let ?losses = "map (\<lambda>i. - ln (softmax (logits ! i) ! (concat target_seqs ! i))) [0..<length logits]"
  have x: "sparse_softmax_cross_entropy_with_logits (concat target_seqs) logits = Some ?losses"
    using lt valid by (auto simp: sparse_softmax_cross_entropy_with_logits_def)
  have "map2 (*) ?losses (map real (concat input_mask))
          = map (\<lambda>i. ?losses ! i * map real (concat input_mask) ! i) [0..<length logits]"
    by (rule map2_conv_nth) (simp_all add: lm)
  also have "\<dots> = map (\<lambda>i. - ln (softmax (logits ! i) ! (concat target_seqs ! i))
                             * real (concat input_mask ! i)) [0..<length logits]"
    by (rule map_cong [OF refl]) (simp add: lm)
  finally have m: "multiply ?losses (map real (concat input_mask))
          = Some (map (\<lambda>i. - ln (softmax (logits ! i) ! (concat target_seqs ! i))
                             * real (concat input_mask ! i)) [0..<length logits])"
    by (simp add: multiply_def lm)
  show ?thesis
    unfolding batch_loss_def Let_def x using m
    by (cases "sum_list (map real (concat input_mask)) = 0") (simp_all add: tf_div_def)
qed

lemma masked_loss_parts:
  assumes lt: "length (concat target_seqs) = length logits"
    and lm: "length (concat input_mask) = length logits"
    and valid: "\<forall>i<length logits. concat target_seqs ! i < length (logits ! i)"
    and nz: "sum_list (concat input_mask) \<noteq> 0"
  shows "map_option fst (batch_loss logits target_seqs input_mask)
           = Some (sum_list (map (\<lambda>i. - ln (softmax (logits ! i) ! (concat target_seqs ! i))
                                         * real (concat input_mask ! i)) [0..<length logits])
                   / sum_list (map real (concat input_mask)))"
    and "(\<forall>w\<in>set (concat input_mask). w = 1) \<longrightarrow>
         map_option fst (batch_loss logits target_seqs input_mask)
           = Some (sum_list (map (\<lambda>i. - ln (softmax (logits ! i) ! (concat target_seqs ! i)))
                                 [0..<length logits])
                   / real (length logits))"
    and "\<forall>target_seqs'.
           length (concat target_seqs') = length logits
           \<and> (\<forall>i<length logits. concat target_seqs' ! i < length (logits ! i))
           \<and> (\<forall>i<length logits. concat input_mask ! i \<noteq> 0
                  \<longrightarrow> concat target_seqs' ! i = concat target_seqs ! i)
           \<longrightarrow> map_option fst (batch_loss logits target_seqs' input_mask)
               = map_option fst (batch_loss logits target_seqs input_mask)"
proof -
  let ?w = "concat input_mask"
  let ?x = "\<lambda>ts i. - ln (softmax (logits ! i) ! (concat ts ! i))"
  have s: "sum_list (map real ?w) = real (sum_list ?w)"
    by (rule sum_list_real)
  with nz have nz': "sum_list (map real ?w) \<noteq> 0" by simp
  show one: "map_option fst (batch_loss logits target_seqs input_mask)
           = Some (sum_list (map (\<lambda>i. ?x target_seqs i * real (?w ! i)) [0..<length logits])
                   / sum_list (map real ?w))"
    unfolding batch_loss_value [OF lt lm valid] using nz' by (simp add: tf_div_def)
  show "(\<forall>w\<in>set ?w. w = 1) \<longrightarrow>
         map_option fst (batch_loss logits target_seqs input_mask)
           = Some (sum_list (map (?x target_seqs) [0..<length logits]) / real (length logits))"
  proof
    assume ones: "\<forall>w\<in>set ?w. w = 1"
    then have w: "?w = replicate (length logits) 1"
      using lm by (intro replicate_eqI) auto
    have a: "map (\<lambda>i. ?x target_seqs i * real (?w ! i)) [0..<length logits]
               = map (?x target_seqs) [0..<length logits]"
      by (rule map_cong [OF refl]) (simp add: w)
    have b: "sum_list (map real ?w) = real (length logits)"
      by (subst w) (simp add: sum_list_replicate)
    show "map_option fst (batch_loss logits target_seqs input_mask)
           = Some (sum_list (map (?x target_seqs) [0..<length logits]) / real (length logits))"
      unfolding one a b ..
  qed
  show "\<forall>target_seqs'.
           length (concat target_seqs') = length logits
           \<and> (\<forall>i<length logits. concat target_seqs' ! i < length (logits ! i))
           \<and> (\<forall>i<length logits. ?w ! i \<noteq> 0 \<longrightarrow> concat target_seqs' ! i = concat target_seqs ! i)
           \<longrightarrow> map_option fst (batch_loss logits target_seqs' input_mask)
               = map_option fst (batch_loss logits target_seqs input_mask)"
  proof (intro allI impI, elim conjE)
    fix ts'
    assume lt': "length (concat ts') = length logits"
      and valid': "\<forall>i<length logits. concat ts' ! i < length (logits ! i)"
      and same: "\<forall>i<length logits. ?w ! i \<noteq> 0 \<longrightarrow> concat ts' ! i = concat target_seqs ! i"
    have "map (\<lambda>i. ?x ts' i * real (?w ! i)) [0..<length logits]
            = map (\<lambda>i. ?x target_seqs i * real (?w ! i)) [0..<length logits]"
    proof (rule map_cong [OF refl])
      fix i assume "i \<in> set [0..<length logits]"
      then have i: "i < length logits" by simp
      show "?x ts' i * real (?w ! i) = ?x target_seqs i * real (?w ! i)"
      proof (cases "?w ! i = 0")
        case True then show ?thesis by simp
      next
        case False with same i show ?thesis by simp
      qed
    qed
    then show "map_option fst (batch_loss logits ts' input_mask)
                 = map_option fst (batch_loss logits target_seqs input_mask)"
      unfolding batch_loss_value [OF lt lm valid] batch_loss_value [OF lt' lm valid']
      by (simp only:)
  qed
qed

text \<open>
  Claim C4. In training and evaluation mode, with one valid target and one mask weight
  per row of logits and a mask that is not all zero, the batch loss is the sum over all
  positions of the cross-entropy of the position times its mask weight, divided by the
  sum of the mask weights. When every mask weight is 1 it is the plain mean of the
  cross-entropies. Changing valid targets at positions whose mask weight is 0 leaves the
  loss unchanged.
\<close>

theorem C4_masked_loss:
  assumes "length (concat target_seqs) = length logits"
    and "length (concat input_mask) = length logits"
    and "\<forall>i<length logits. concat target_seqs ! i < length (logits ! i)"
    and "sum_list (concat input_mask) \<noteq> 0"
  shows "map_option fst (batch_loss logits target_seqs input_mask)
           = Some (sum_list (map (\<lambda>i. - ln (softmax (logits ! i) ! (concat target_seqs ! i))
                                         * real (concat input_mask ! i)) [0..<length logits])
                   / sum_list (map real (concat input_mask)))
       \<and> ((\<forall>w\<in>set (concat input_mask). w = 1) \<longrightarrow>
           map_option fst (batch_loss logits target_seqs input_mask)
             = Some (sum_list (map (\<lambda>i. - ln (softmax (logits ! i) ! (concat target_seqs ! i)))
                                   [0..<length logits])
                     / real (length logits)))
       \<and> (\<forall>target_seqs'.
             length (concat target_seqs') = length logits
             \<and> (\<forall>i<length logits. concat target_seqs' ! i < length (logits ! i))
             \<and> (\<forall>i<length logits. concat input_mask ! i \<noteq> 0
                    \<longrightarrow> concat target_seqs' ! i = concat target_seqs ! i)
             \<longrightarrow> map_option fst (batch_loss logits target_seqs' input_mask)
                 = map_option fst (batch_loss logits target_seqs input_mask))"
  using masked_loss_parts [OF assms] by (intro conjI)

theorem C4_masked_loss_witness:
  "length (concat [[0, 1 :: nat]]) = length [[0, 0], [0, 0 :: real]]
   \<and> sum_list (concat [[1, 0 :: nat]]) \<noteq> 0
   \<and> map_option fst (batch_loss [[0, 0], [0, 0]] [[0, 1]] [[1, 0]]) = Some (- ln (1 / 2))
   \<and> map_option fst (batch_loss [[0, 0], [0, 0]] [[0, 0]] [[1, 0]])
       = map_option fst (batch_loss [[0, 0], [0, 0]] [[0, 1]] [[1, 0]])"
proof -
  have v: "\<forall>i<length [[0, 0], [0, 0 :: real]].
             concat [[0, 1 :: nat]] ! i < length ([[0, 0], [0, 0 :: real]] ! i)"
    by (simp add: less_Suc_eq numeral_2_eq_2)
  have v': "\<forall>i<length [[0, 0], [0, 0 :: real]].
             concat [[0, 0 :: nat]] ! i < length ([[0, 0], [0, 0 :: real]] ! i)"
    by (simp add: less_Suc_eq numeral_2_eq_2)
  have s: "\<forall>i<length [[0, 0], [0, 0 :: real]]. concat [[1, 0 :: nat]] ! i \<noteq> 0
             \<longrightarrow> concat [[0, 0 :: nat]] ! i = concat [[0, 1 :: nat]] ! i"
    by (simp add: less_Suc_eq numeral_2_eq_2)
  have c: "map_option fst (batch_loss [[0, 0], [0, 0]] [[0, 1]] [[1, 0]])
             = Some (sum_list (map (\<lambda>i. - ln (softmax ([[0, 0], [0, 0]] ! i) ! (concat [[0, 1]] ! i))
                                         * real (concat [[1, 0]] ! i)) [0..<length [[0, 0], [0, 0 :: real]]])
                   / sum_list (map real (concat [[1, 0]])))"
    and m: "\<forall>target_seqs'.
             length (concat target_seqs') = length [[0, 0], [0, 0 :: real]]
             \<and> (\<forall>i<length [[0, 0], [0, 0 :: real]].
                    concat target_seqs' ! i < length ([[0, 0], [0, 0 :: real]] ! i))
             \<and> (\<forall>i<length [[0, 0], [0, 0 :: real]]. concat [[1, 0 :: nat]] ! i \<noteq> 0
                    \<longrightarrow> concat target_seqs' ! i = concat [[0, 1 :: nat]] ! i)
             \<longrightarrow> map_option fst (batch_loss [[0, 0], [0, 0]] target_seqs' [[1, 0]])
                 = map_option fst (batch_loss [[0, 0], [0, 0]] [[0, 1]] [[1, 0]])"
    using C4_masked_loss [of "[[0, 1]]" "[[0, 0], [0, 0]]" "[[1, 0]]", OF _ _ v] by simp_all
  have "map_option fst (batch_loss [[0, 0], [0, 0]] [[0, 0]] [[1, 0]])
       = map_option fst (batch_loss [[0, 0], [0, 0]] [[0, 1]] [[1, 0]])"
    using m [rule_format, of "[[0, 0]]"] v' s by simp
  moreover have "map_option fst (batch_loss [[0, 0], [0, 0]] [[0, 1]] [[1, 0]]) = Some (- ln (1 / 2))"
    unfolding c by (simp add: softmax_def upt_rec numeral_2_eq_2)
  ultimately show ?thesis by simp
qed

section \<open>Properties of the stepwise call\<close>

lemma lstm_cell_no_dropout:
  "mode \<noteq> Train \<or> lstm_dropout_keep_prob cfg = 1 \<Longrightarrow>
   lstm_cell mode cfg vars rng
     = Some (\<lambda>inputs state n. (BasicLSTMCell (num_lstm_units cfg) vars inputs state, n))"
  by (auto simp: lstm_cell_def DropoutWrapper_def Let_def split: prod.splits intro!: ext)

lemma stepwise_rng_independent:
  "map_option fst (build_model_inference Inference cfg vars rng image_embeddings seq_embeddings
                     state_feed n)
     = map_option fst (build_model_inference Inference cfg vars rng' image_embeddings seq_embeddings
                         state_feed n')"
  by (simp add: build_model_inference_def lstm_cell_no_dropout Let_def
        split: Option.bind_split prod.splits)

lemma stepwise_no_draw:
  "build_model_inference Inference cfg vars rng image_embeddings seq_embeddings state_feed n
     = Some (out, m) \<Longrightarrow> m = n"
  by (auto simp: build_model_inference_def lstm_cell_no_dropout Let_def
        split: Option.bind_splits prod.splits if_splits)

text \<open>
  Claim C8. A call in inference mode is a function of its explicit arguments: its
  outputs (softmax, new state and logits) are the same whatever the random source and
  the number of earlier draws, so two calls with the same state vector, the same inputs
  and the same weights return the same outputs; a call that returns leaves the number of
  draws, the only state kept between calls, as it was; and the cell is wrapped in dropout
  in no mode but training, so it is the plain cell in inference mode.
\<close>

theorem C8_stepwise_call_pure:
  "map_option fst (build_model_inference Inference cfg vars rng image_embeddings seq_embeddings
                     state_feed n)
     = map_option fst (build_model_inference Inference cfg vars rng' image_embeddings seq_embeddings
                         state_feed n')
   \<and> (\<forall>out m. build_model_inference Inference cfg vars rng image_embeddings seq_embeddings
                    state_feed n = Some (out, m) \<longrightarrow> m = n)
   \<and> (mode \<noteq> Train \<longrightarrow>
         lstm_cell mode cfg vars rng
           = Some (\<lambda>inputs state n. (BasicLSTMCell (num_lstm_units cfg) vars inputs state, n)))"
proof (intro conjI)
  show "map_option fst (build_model_inference Inference cfg vars rng image_embeddings
                          seq_embeddings state_feed n)
     = map_option fst (build_model_inference Inference cfg vars rng' image_embeddings seq_embeddings
                         state_feed n')"
    by (rule stepwise_rng_independent)
  show "\<forall>out m. build_model_inference Inference cfg vars rng image_embeddings seq_embeddings
                    state_feed n = Some (out, m) \<longrightarrow> m = n"
    by (blast dest: stepwise_no_draw)
  show "mode \<noteq> Train \<longrightarrow>
         lstm_cell mode cfg vars rng
           = Some (\<lambda>inputs state n. (BasicLSTMCell (num_lstm_units cfg) vars inputs state, n))"
    by (simp add: lstm_cell_no_dropout)
qed

theorem C8_stepwise_call_pure_witness:
  "Eval \<noteq> Train
   \<and> build_model_inference Inference \<lparr>num_lstm_units = 1, lstm_dropout_keep_prob = 0.7\<rparr>
         \<lparr>lstm_kernel = [[0, 0, 0], [0, 0, 0], [0, 0, 0], [0, 0, 0]], lstm_bias = [0, 0, 0, 0],
          logits_weights = [[1]], logits_biases = [0]\<rparr>
         (\<lambda>d b i. 0) [[1]] [[[2]], [[3]]] [[0, 0], [0, 0]] 5
       = Some (([[1], [1]], [[0, 0], [0, 0]], [[0], [0]]), 5)"
  using C8_stepwise_call_pure [of "\<lparr>num_lstm_units = 1, lstm_dropout_keep_prob = 0.7\<rparr>"
      "\<lparr>lstm_kernel = [[0, 0, 0], [0, 0, 0], [0, 0, 0], [0, 0, 0]], lstm_bias = [0, 0, 0, 0],
          logits_weights = [[1]], logits_biases = [0]\<rparr>"
      "\<lambda>d b i. 0" "[[1]]" "[[[2]], [[3]]]" "[[0, 0], [0, 0]]" 5 "\<lambda>d b i. 1" 6 Eval]
  by (simp add: build_model_inference_def seq_embeddings_with_aspect_def shape0_def tile_def
        expand_dims1_def concat_axis2_def split_state_feed_def squeeze1_def lstm_cell_def
        BasicLSTMCell_def lstm_row_def matmul_row_def fully_connected_def softmax_def
        concat_state_def sigmoid_def Let_def upt_rec numeral_2_eq_2)

section \<open>Stepwise and unrolled decoding\<close>

lemma lstm_row_shape:
  assumes "length (lstm_kernel vars) = 4 * H" "length (lstm_bias vars) = 4 * H" "length c = H"
  shows "length (fst (snd (lstm_row H vars x (c, h)))) = H"
    and "length (snd (snd (lstm_row H vars x (c, h)))) = H"
  using assms by (simp_all add: lstm_row_def matmul_row_def Let_def)

lemma BasicLSTMCell_rows:
  "BasicLSTMCell H vars inputs st
     = (map (\<lambda>b. fst (lstm_row H vars (inputs ! b) (fst st ! b, snd st ! b))) [0..<length inputs],
        map (\<lambda>b. fst (snd (lstm_row H vars (inputs ! b) (fst st ! b, snd st ! b)))) [0..<length inputs],
        map (\<lambda>b. snd (snd (lstm_row H vars (inputs ! b) (fst st ! b, snd st ! b)))) [0..<length inputs])"
  by (simp add: BasicLSTMCell_def Let_def)

lemma rnn_loop_row:
  assumes "\<forall>x\<in>set xs. b < length x" and "k < length xs" and "time + k < lens ! b"
  shows "fst (fst (rnn_loop (\<lambda>x s n. (BasicLSTMCell H vars x s, n)) H' lens xs time st n)) ! k ! b
       = fst (lstm_row H vars (xs ! k ! b)
                (foldl (\<lambda>s x. snd (lstm_row H vars x s)) (fst st ! b, snd st ! b)
                   (map (\<lambda>x. x ! b) (take k xs))))"
  using assms
proof (induction xs arbitrary: time st n k)
  case Nil
  then show ?case by simp
next
  case (Cons x xs)
  from Cons.prems have b: "b < length x" by simp
  show ?case
  proof (cases k)
    case 0
    with Cons.prems b show ?thesis
      by (simp add: Let_def split_beta BasicLSTMCell_rows)
  next
    case (Suc k')
    with Cons.prems have t: "time < lens ! b" and k': "k' < length xs"
      and t': "Suc time + k' < lens ! b" and xs: "\<forall>x\<in>set xs. b < length x" by simp_all
    let ?st = "(map (\<lambda>b. if time < lens ! b
                         then fst (snd (BasicLSTMCell H vars x st)) ! b else fst st ! b) [0..<length x],
                map (\<lambda>b. if time < lens ! b
                         then snd (snd (BasicLSTMCell H vars x st)) ! b else snd st ! b) [0..<length x])"
    have st: "(fst ?st ! b, snd ?st ! b) = snd (lstm_row H vars (x ! b) (fst st ! b, snd st ! b))"
      using b t by (simp add: BasicLSTMCell_rows)
    from Cons.IH [OF xs k' t', of ?st n] Suc show ?thesis
      unfolding st by (simp add: Let_def split_beta)
  qed
qed

lemma map_nth_take: "t \<le> length xs \<Longrightarrow> map ((!) xs) [0..<t] = take t xs"
  by (rule nth_equalityI) simp_all

lemma dynamic_rnn_row:
  assumes rect: "\<forall>m\<in>set inputs. length m = T" and b: "b < length inputs"
    and t: "t < T" and valid: "t < lens ! b"
  shows "fst (fst (dynamic_rnn (\<lambda>x s n. (BasicLSTMCell H vars x s, n)) H' inputs lens st n)) ! b ! t
       = fst (lstm_row H vars (inputs ! b ! t)
                (foldl (\<lambda>s x. snd (lstm_row H vars x s)) (fst st ! b, snd st ! b)
                   (take t (inputs ! b))))"
proof -
  let ?tm = "map (\<lambda>t. map (\<lambda>rows. rows ! t) inputs) [0..<T]"
  from b have ne: "inputs \<noteq> []" by auto
  with rect have s1: "shape1 inputs = T" by (intro shape1_uniform) auto
  from rect b have lb: "length (inputs ! b) = T" by simp
  have 1: "\<forall>x\<in>set ?tm. b < length x" using b by auto
  have 2: "t < length ?tm" using t by simp
  have 3: "0 + t < lens ! b" using valid by simp
  have "map (\<lambda>x. x ! b) (take t ?tm) = map ((!) (inputs ! b)) [0..<t]"
    using t b by (simp add: take_map comp_def)
  also have "\<dots> = take t (inputs ! b)" using t lb by (intro map_nth_take) simp
  finally have tk: "map (\<lambda>x. x ! b) (take t ?tm) = take t (inputs ! b)" .
  have "fst (fst (dynamic_rnn (\<lambda>x s n. (BasicLSTMCell H vars x s, n)) H' inputs lens st n)) ! b ! t
      = fst (fst (rnn_loop (\<lambda>x s n. (BasicLSTMCell H vars x s, n)) H' lens ?tm 0 st n)) ! t ! b"
    using b t by (simp add: dynamic_rnn_def s1 Let_def split_beta)
  also have "\<dots> = fst (lstm_row H vars (?tm ! t ! b)
                (foldl (\<lambda>s x. snd (lstm_row H vars x s)) (fst st ! b, snd st ! b)
                   (map (\<lambda>x. x ! b) (take t ?tm))))"
    by (rule rnn_loop_row [OF 1 2 3])
  finally show ?thesis unfolding tk using t b by simp
qed

lemma dynamic_rnn_shape:
  assumes "\<forall>m\<in>set inputs. length m = T" "inputs \<noteq> []"
  shows "length (fst (fst (dynamic_rnn cell H' inputs lens st n))) = length inputs"
    and "\<forall>r\<in>set (fst (fst (dynamic_rnn cell H' inputs lens st n))). length r = T"
  using shape1_uniform [OF assms]
  by (auto simp: dynamic_rnn_def Let_def split_beta)

lemma concat_nth_uniform:
  "\<forall>r\<in>set xss. length r = T \<Longrightarrow> b < length xss \<Longrightarrow> t < T \<Longrightarrow> concat xss ! (b * T + t) = xss ! b ! t"
proof (induction xss arbitrary: b)
  case Nil
  then show ?case by simp
next
  case (Cons x xss)
  show ?case
  proof (cases b)
    case 0
    with Cons.prems show ?thesis by (simp add: nth_append)
  next
    case (Suc b')
    with Cons.prems have "concat xss ! (b' * T + t) = xss ! b' ! t" by (intro Cons.IH) simp_all
    with Cons.prems Suc show ?thesis by (simp add: nth_append)
  qed
qed

lemma initial_state_rows:
  assumes nodrop: "mode \<noteq> Train \<or> lstm_dropout_keep_prob cfg = 1"
    and run: "initial_state mode cfg vars rng img reg n = Some (st, n1)"
    and b: "b < length img"
  shows "(fst st ! b, snd st ! b)
           = snd (lstm_row (num_lstm_units cfg) vars (img ! b @ reg ! b)
                    (replicate (num_lstm_units cfg) 0, replicate (num_lstm_units cfg) 0))"
    and "n1 = n"
proof -
  let ?H = "num_lstm_units cfg"
  from run have len: "length reg = length img"
    by (auto simp: initial_state_def image_embeddings_with_aspect_def concat_axis1_def
          split: if_splits)
  with run have st: "st = snd (BasicLSTMCell ?H vars (map2 (@) img reg) (zero_state ?H (length img)))"
    and n: "n1 = n"
    by (auto simp: initial_state_def image_embeddings_with_aspect_def concat_axis1_def
          lstm_cell_no_dropout [OF nodrop] Let_def split: prod.splits)
  show "n1 = n" by (rule n)
  show "(fst st ! b, snd st ! b)
           = snd (lstm_row ?H vars (img ! b @ reg ! b) (replicate ?H 0, replicate ?H 0))"
    unfolding st using b len by (simp add: BasicLSTMCell_rows zero_state_def)
qed

lemma stepwise_initial_state:
  "build_model_initial_state Inference cfg vars rng [g] [r] n
     = Some ([fst (snd (lstm_row (num_lstm_units cfg) vars (g @ r)
                          (replicate (num_lstm_units cfg) 0, replicate (num_lstm_units cfg) 0)))
              @ snd (snd (lstm_row (num_lstm_units cfg) vars (g @ r)
                          (replicate (num_lstm_units cfg) 0, replicate (num_lstm_units cfg) 0)))],
             n)"
  by (simp add: build_model_initial_state_def initial_state_def image_embeddings_with_aspect_def
        concat_axis1_def lstm_cell_no_dropout BasicLSTMCell_rows zero_state_def concat_state_def
        Let_def split_beta)

lemma stepwise_one_step:
  assumes "length c = num_lstm_units cfg" and "length h = num_lstm_units cfg"
  shows "build_model_inference Inference cfg vars rng [g] [[w]] [c @ h] n
     = Some (([softmax (fully_connected vars (fst (lstm_row (num_lstm_units cfg) vars (w @ g) (c, h))))],
              [fst (snd (lstm_row (num_lstm_units cfg) vars (w @ g) (c, h)))
               @ snd (snd (lstm_row (num_lstm_units cfg) vars (w @ g) (c, h)))],
              [fully_connected vars (fst (lstm_row (num_lstm_units cfg) vars (w @ g) (c, h)))]),
             n)"
proof -
  have sc: "seq_embeddings_with_aspect Inference [g] [[w]] = Some [[w @ g]]"
    using seq_context_stepwise [of "[[w]]" g] by simp
  have sp: "split_state_feed cfg [c @ h] = Some ([c], [h])"
    using assms by (simp add: split_state_feed_def)
  show ?thesis
    unfolding build_model_inference_def sc sp
    by (simp add: squeeze1_def lstm_cell_no_dropout BasicLSTMCell_rows concat_state_def Let_def
          split_beta)
qed

lemma thread_steps_rows:
  assumes w: "length (lstm_kernel vars) = 4 * num_lstm_units cfg"
             "length (lstm_bias vars) = 4 * num_lstm_units cfg"
    and c: "length c = num_lstm_units cfg" and h: "length h = num_lstm_units cfg"
  shows "\<exists>ls fin. thread_steps cfg vars rng [g] ws [c @ h] n = Some ((ls, fin), n)
           \<and> length ls = length ws
           \<and> (\<forall>k<length ws. ls ! k =
                 [fully_connected vars (fst (lstm_row (num_lstm_units cfg) vars (ws ! k @ g)
                    (foldl (\<lambda>s x. snd (lstm_row (num_lstm_units cfg) vars x s)) (c, h)
                       (map (\<lambda>w. w @ g) (take k ws)))))])"
  using c h
proof (induction ws arbitrary: c h)
  case Nil
  show ?case by simp
next
  case (Cons a ws)
  let ?H = "num_lstm_units cfg"
  let ?r = "lstm_row ?H vars (a @ g) (c, h)"
  have c': "length (fst (snd ?r)) = ?H" and h': "length (snd (snd ?r)) = ?H"
    using lstm_row_shape [OF w Cons.prems(1)] by simp_all
  from Cons.IH [OF c' h'] obtain ls fin where
    ts: "thread_steps cfg vars rng [g] ws [fst (snd ?r) @ snd (snd ?r)] n = Some ((ls, fin), n)"
    and len: "length ls = length ws"
    and rows: "\<forall>k<length ws. ls ! k =
                 [fully_connected vars (fst (lstm_row ?H vars (ws ! k @ g)
                    (foldl (\<lambda>s x. snd (lstm_row ?H vars x s)) (fst (snd ?r), snd (snd ?r))
                       (map (\<lambda>w. w @ g) (take k ws)))))]"
    by blast
  have step: "thread_steps cfg vars rng [g] (a # ws) [c @ h] n
                = Some (([fully_connected vars (fst ?r)] # ls, fin), n)"
    by (simp add: stepwise_one_step [OF Cons.prems] ts)
  have "\<forall>k<length (a # ws). ([fully_connected vars (fst ?r)] # ls) ! k =
                 [fully_connected vars (fst (lstm_row ?H vars ((a # ws) ! k @ g)
                    (foldl (\<lambda>s x. snd (lstm_row ?H vars x s)) (c, h)
                       (map (\<lambda>w. w @ g) (take k (a # ws))))))]"
  proof (intro allI impI)
    fix k assume k: "k < length (a # ws)"
    show "([fully_connected vars (fst ?r)] # ls) ! k =
                 [fully_connected vars (fst (lstm_row ?H vars ((a # ws) ! k @ g)
                    (foldl (\<lambda>s x. snd (lstm_row ?H vars x s)) (c, h)
                       (map (\<lambda>w. w @ g) (take k (a # ws))))))]"
    proof (cases k)
      case 0
      then show ?thesis by simp
    next
      case (Suc k')
      with k rows show ?thesis by simp
    qed
  qed
  with step len show ?case by simp
qed

lemma seq_context_batch:
  assumes "seq_embeddings_with_aspect mode img seq = Some sc" and "mode \<noteq> Inference"
  shows "length seq = length img"
  using assms unfolding seq_embeddings_with_aspect_def Let_def tile_unrolled
  by (simp add: concat_axis2_def split: if_splits)

lemma length_concat_uniform: "\<forall>r\<in>set xss. length r = T \<Longrightarrow> length (concat xss) = length xss * T"
  by (induction xss) simp_all

lemma flat_index_less: "b < B \<Longrightarrow> t < T \<Longrightarrow> b * T + t < B * (T::nat)"
proof -
  assume b: "b < B" and t: "t < T"
  have "b * T + t < Suc b * T" using t by simp
  also have "\<dots> \<le> B * T" using b by (intro mult_le_mono1) simp
  finally show ?thesis .
qed

text \<open>
  Claim C2, amended. Let the unrolled run be in evaluation mode, or in training mode
  with the dropout keep probability 1 (for which the wrapper applies no dropout), with
  weights whose LSTM kernel and bias have \<open>4H\<close> columns, on a batch whose word embeddings
  have \<open>T\<close> time steps. Arithmetic is exact, so the equality below is the claim's
  agreement up to floating-point tolerance, taken over exact arithmetic. For every
  example \<open>b\<close> of the batch and every position \<open>t\<close> below the example's sequence length
  (the sum of its mask row), running inference mode one word at a time over the words of
  the example, from the seeded initial state of the example's image and with the
  flattened state threaded through the calls, succeeds, makes \<open>T\<close> calls, and the logits
  of call \<open>t\<close> are the logits of the unrolled run at position \<open>t\<close> of example \<open>b\<close>.
\<close>

theorem C2_stepwise_equals_unrolled:
  assumes nodrop: "mode = Eval \<or> (mode = Train \<and> lstm_dropout_keep_prob cfg = 1)"
    and w: "length (lstm_kernel vars) = 4 * num_lstm_units cfg"
           "length (lstm_bias vars) = 4 * num_lstm_units cfg"
    and rect: "\<forall>m\<in>set seq_embeddings. length m = T"
    and run: "unrolled_logits mode cfg vars rng image_embeddings region_aspect_embeddings
                seq_embeddings target_seqs input_mask n = Some logits"
    and b: "b < length image_embeddings"
    and t: "t < T" and valid: "t < sum_list (input_mask ! b)"
  shows "\<exists>steps.
           stepwise_logits cfg vars rng' [image_embeddings ! b] [region_aspect_embeddings ! b]
             (seq_embeddings ! b) n' = Some steps
         \<and> length steps = T
         \<and> steps ! t = [logits ! (b * T + t)]"
proof -
  let ?H = "num_lstm_units cfg"
  let ?P = "\<lambda>x s n. (BasicLSTMCell ?H vars x s, n)"
  let ?g = "image_embeddings ! b"
  let ?step = "\<lambda>s x. snd (lstm_row ?H vars x s)"
  let ?z = "(replicate ?H (0::real), replicate ?H (0::real))"
  from nodrop have nd: "mode \<noteq> Train \<or> lstm_dropout_keep_prob cfg = 1"
    and ninf: "mode \<noteq> Inference" by auto
  let ?outs = "\<lambda>sc st n1. fst (fst (dynamic_rnn ?P ?H sc (map sum_list input_mask) st n1))"
  from run obtain sc st n1 where
    sc: "seq_embeddings_with_aspect mode image_embeddings seq_embeddings = Some sc"
    and init: "initial_state mode cfg vars rng image_embeddings region_aspect_embeddings n
                 = Some (st, n1)"
    and lm: "length input_mask = length sc"
    and logits': "logits = map (fully_connected vars) (concat (?outs sc st n1))"
    unfolding unrolled_logits_def build_model_unrolled_def lstm_cell_no_dropout [OF nd]
    by (auto simp: Let_def split: Option.bind_splits if_splits prod.splits)
  let ?outs = "fst (fst (dynamic_rnn ?P ?H sc (map sum_list input_mask) st n1))"
  have lseq: "length seq_embeddings = length image_embeddings"
    by (rule seq_context_batch [OF sc ninf])
  from seq_context_unrolled [OF ninf lseq rect] sc
  have sc_val: "sc = map (\<lambda>b. map (\<lambda>t. seq_embeddings ! b ! t @ image_embeddings ! b) [0..<T])
                      [0..<length seq_embeddings]" by simp
  have bs: "b < length seq_embeddings" using b lseq by simp
  have lsb: "length (seq_embeddings ! b) = T" using rect bs by simp
  have sc_rect: "\<forall>m\<in>set sc. length m = T" unfolding sc_val by auto
  have bsc: "b < length sc" unfolding sc_val using bs by simp
  have sc_b: "sc ! b = map (\<lambda>w. w @ ?g) (seq_embeddings ! b)"
    unfolding sc_val using bs lsb by (auto intro!: nth_equalityI)
  have len_b: "t < map sum_list input_mask ! b" using valid bsc lm by simp
  have out_bt: "?outs ! b ! t
      = fst (lstm_row ?H vars (sc ! b ! t)
               (foldl ?step (fst st ! b, snd st ! b) (take t (sc ! b))))"
    by (rule dynamic_rnn_row [OF sc_rect bsc t len_b])
  have sc_bt: "sc ! b ! t = seq_embeddings ! b ! t @ ?g" unfolding sc_b using t lsb by simp
  have tk: "take t (sc ! b) = map (\<lambda>w. w @ ?g) (take t (seq_embeddings ! b))"
    unfolding sc_b by (simp add: take_map)
  have ne: "sc \<noteq> []" using bsc by auto
  have outs_len: "length ?outs = length sc" and outs_rect: "\<forall>r\<in>set ?outs. length r = T"
    using dynamic_rnn_shape [OF sc_rect ne] by blast+
  have idx: "b * T + t < length (concat ?outs)"
    unfolding length_concat_uniform [OF outs_rect] outs_len by (rule flat_index_less [OF bsc t])
  have "concat ?outs ! (b * T + t) = ?outs ! b ! t"
    by (rule concat_nth_uniform [OF outs_rect _ t]) (simp add: outs_len bsc)
  with idx have lg: "logits ! (b * T + t) = fully_connected vars (?outs ! b ! t)"
    unfolding logits' by simp
  have st_b: "(fst st ! b, snd st ! b)
                = snd (lstm_row ?H vars (?g @ region_aspect_embeddings ! b) ?z)"
    by (rule initial_state_rows(1) [OF nd init b])
  let ?i = "lstm_row ?H vars (?g @ region_aspect_embeddings ! b) ?z"
  have c0: "length (fst (snd ?i)) = ?H" and h0: "length (snd (snd ?i)) = ?H"
    using lstm_row_shape [OF w, of "replicate ?H 0"] by simp_all
  from thread_steps_rows [OF w c0 h0, of rng' ?g "seq_embeddings ! b" n']
  obtain ls fin where
    ts: "thread_steps cfg vars rng' [?g] (seq_embeddings ! b) [fst (snd ?i) @ snd (snd ?i)] n'
           = Some ((ls, fin), n')"
    and ls_len: "length ls = length (seq_embeddings ! b)"
    and ls_rows: "\<forall>k<length (seq_embeddings ! b). ls ! k =
                 [fully_connected vars (fst (lstm_row ?H vars (seq_embeddings ! b ! k @ ?g)
                    (foldl ?step (fst (snd ?i), snd (snd ?i))
                       (map (\<lambda>w. w @ ?g) (take k (seq_embeddings ! b))))))]"
    by blast
  have sl: "stepwise_logits cfg vars rng' [?g] [region_aspect_embeddings ! b]
              (seq_embeddings ! b) n' = Some ls"
    by (simp add: stepwise_logits_def stepwise_initial_state ts)
  from ls_rows t lsb have "ls ! t =
                 [fully_connected vars (fst (lstm_row ?H vars (seq_embeddings ! b ! t @ ?g)
                    (foldl ?step (fst (snd ?i), snd (snd ?i))
                       (map (\<lambda>w. w @ ?g) (take t (seq_embeddings ! b))))))]"
    by simp
  also have "\<dots> = [logits ! (b * T + t)]"
    unfolding lg out_bt sc_bt tk st_b by simp
  finally have "ls ! t = [logits ! (b * T + t)]" .
  with sl ls_len lsb show ?thesis by simp
qed

lemma sigmoid_0: "sigmoid 0 = 1 / 2"
  by (simp add: sigmoid_def)

lemma example_lstm_row:
  "lstm_row (Suc 0) example_variables [a, b] ([c], [h])
     = ([tanh (c * sigmoid 1 + tanh 1 / 2) / 2],
        [c * sigmoid 1 + tanh 1 / 2], [tanh (c * sigmoid 1 + tanh 1 / 2) / 2])"
  by (simp add: lstm_row_def matmul_row_def Let_def sigmoid_0 example_variables_def)

lemma example_fully_connected: "fully_connected example_variables [x] = [x]"
  by (simp add: fully_connected_def matmul_row_def example_variables_def)

lemma example_stepwise:
  "stepwise_logits example_config example_variables rng [[1]] [[1]] [[1]] n
     = Some [[[tanh (tanh 1 / 2 * sigmoid 1 + tanh 1 / 2) / 2]]]"
proof -
  have H: "num_lstm_units example_config = 1" by (simp add: example_config_def)
  have i: "build_model_initial_state Inference example_config example_variables rng [[1]] [[1]] n
             = Some ([[tanh 1 / 2, tanh (tanh 1 / 2) / 2]], n)"
    unfolding stepwise_initial_state H by (simp add: example_lstm_row)
  have s: "build_model_inference Inference example_config example_variables rng [[1]] [[[1]]]
             [[tanh 1 / 2] @ [tanh (tanh 1 / 2) / 2]] n
           = Some (([softmax [tanh (tanh 1 / 2 * sigmoid 1 + tanh 1 / 2) / 2]],
                    [[tanh 1 / 2 * sigmoid 1 + tanh 1 / 2,
                      tanh (tanh 1 / 2 * sigmoid 1 + tanh 1 / 2) / 2]],
                    [[tanh (tanh 1 / 2 * sigmoid 1 + tanh 1 / 2) / 2]]), n)"
    by (subst stepwise_one_step) (simp_all add: H example_lstm_row example_fully_connected)
  show ?thesis
    unfolding stepwise_logits_def i using s by simp
qed

lemma example_config_simps:
  "num_lstm_units example_config = Suc 0" "lstm_dropout_keep_prob example_config = 1 / 2"
  by (simp_all add: example_config_def)

lemma example_seq_context:
  "mode \<noteq> Inference \<Longrightarrow> seq_embeddings_with_aspect mode [[1]] [[[1]]] = Some [[[1, 1]]]"
  using seq_context_unrolled [of mode "[[[1]]]" "[[1]]" 1] by simp

lemma example_cell:
  "BasicLSTMCell (Suc 0) example_variables [[a, b]] ([[c]], [[h]])
     = ([[tanh (c * sigmoid 1 + tanh 1 / 2) / 2]],
        ([[c * sigmoid 1 + tanh 1 / 2]], [[tanh (c * sigmoid 1 + tanh 1 / 2) / 2]]))"
  by (simp add: BasicLSTMCell_rows example_lstm_row)

lemma map_nth_fun: "map (\<lambda>i. f (xs ! i)) [0..<length xs] = map f xs"
  by (rule nth_equalityI) simp_all

lemma example_dropout:
  "dropout (constant_rng (1 / 2)) (1 / 2) [x] n = ([map (\<lambda>v. 2 * v) x], Suc n)"
proof -
  have "map (\<lambda>i. x ! i / (1 / 2) * of_int \<lfloor>1 / 2 + (1 / 2 :: real)\<rfloor>) [0..<length x]
          = map (\<lambda>v. v / (1 / 2) * of_int \<lfloor>1 / 2 + (1 / 2 :: real)\<rfloor>) x"
    by (rule map_nth_fun)
  also have "\<dots> = map (\<lambda>v. 2 * v) x" by simp
  finally show ?thesis by (simp add: dropout_def constant_rng_def)
qed

lemma example_cell_train:
  "\<exists>cell. lstm_cell Train example_config example_variables (constant_rng (1 / 2)) = Some cell
     \<and> (\<forall>a b c h n. cell [[a, b]] ([[c]], [[h]]) n
           = (([[2 * (tanh (c * sigmoid 1 + tanh 1 / 2) / 2)]],
               ([[c * sigmoid 1 + tanh 1 / 2]], [[tanh (c * sigmoid 1 + tanh 1 / 2) / 2]])),
              Suc (Suc n)))"
  unfolding lstm_cell_def DropoutWrapper_def example_config_simps
  by (simp add: example_dropout example_cell)

lemma example_loss: "batch_loss [[x]] [[0]] [[Suc 0]] = Some (0, [0], [1])"
  by (simp add: batch_loss_def sparse_softmax_cross_entropy_with_logits_def multiply_def
      tf_div_def softmax_def)

lemma example_unrolled_train:
  "unrolled_logits Train example_config example_variables (constant_rng (1 / 2))
       [[1]] [[1]] [[[1]]] [[0]] [[1]] n
     = Some [[2 * (tanh (tanh 1 / 2 * sigmoid 1 + tanh 1 / 2) / 2)]]"
proof -
  from example_cell_train obtain cell where
    c: "lstm_cell Train example_config example_variables (constant_rng (1 / 2)) = Some cell"
    and call: "\<And>a b c h n. cell [[a, b]] ([[c]], [[h]]) n
           = (([[2 * (tanh (c * sigmoid 1 + tanh 1 / 2) / 2)]],
               ([[c * sigmoid 1 + tanh 1 / 2]], [[tanh (c * sigmoid 1 + tanh 1 / 2) / 2]])),
              Suc (Suc n))"
    by blast
  have init: "initial_state Train example_config example_variables (constant_rng (1 / 2))
                [[1]] [[1]] n
              = Some (([[tanh 1 / 2]], [[tanh (tanh 1 / 2) / 2]]), Suc (Suc n))" for n
    unfolding initial_state_def c image_embeddings_with_aspect_def concat_axis1_def
      zero_state_def example_config_simps
    by (simp add: call)
  have rnn: "dynamic_rnn cell (Suc 0) [[[1, 1]]] [Suc 0] ([[c]], [[h]]) n
     = (([[[2 * (tanh (c * sigmoid 1 + tanh 1 / 2) / 2)]]],
         ([[c * sigmoid 1 + tanh 1 / 2]], [[tanh (c * sigmoid 1 + tanh 1 / 2) / 2]])),
        Suc (Suc n))" for c h n
    unfolding dynamic_rnn_def shape1_def
    by (simp add: call)
  show ?thesis
    unfolding unrolled_logits_def build_model_unrolled_def c example_config_simps
    by (simp add: example_seq_context init rnn example_fully_connected example_loss)
qed

lemma example_output_nonzero: "tanh (tanh 1 / 2 * sigmoid 1 + tanh 1 / 2) / 2 \<noteq> (0::real)"
proof -
  have "0 < sigmoid (1::real)" by (simp add: sigmoid_def add_pos_pos)
  moreover have "0 < tanh (1::real)" by simp
  ultimately have "0 < tanh 1 / 2 * sigmoid 1 + tanh 1 / (2::real)"
    by (intro add_pos_pos mult_pos_pos) simp_all
  then show ?thesis by simp
qed

text \<open>
  Claim C2 as stated also covers the unrolled run in training mode. There the cell is
  wrapped in dropout: with keep probability one half and every unit kept, the output of
  the cell is doubled before the logits layer, and the logits of the unrolled run differ
  from the logits of the stepwise run with the same weights.
\<close>

theorem C2_train_dropout_counterexample:
  "unrolled_logits Train example_config example_variables (constant_rng (1 / 2))
       [[1]] [[1]] [[[1]]] [[0]] [[1]] 0
     = Some [[2 * (tanh (tanh 1 / 2 * sigmoid 1 + tanh 1 / 2) / 2)]]
   \<and> stepwise_logits example_config example_variables (constant_rng (1 / 2)) [[1]] [[1]] [[1]] 0
     = Some [[[tanh (tanh 1 / 2 * sigmoid 1 + tanh 1 / 2) / 2]]]
   \<and> 2 * (tanh (tanh 1 / 2 * sigmoid 1 + tanh 1 / 2) / 2)
       \<noteq> tanh (tanh 1 / 2 * sigmoid 1 + tanh 1 / 2) / (2::real)"
  using example_unrolled_train [of 0] example_stepwise [of "constant_rng (1 / 2)" 0]
    example_output_nonzero
  by simp

text \<open>
  A run in evaluation mode, or in training mode without dropout, returns logits on every
  batch of consistent shapes with valid targets and a mask that is not all zero.
\<close>

lemma fully_connected_length:
  "length (logits_weights vars) = V \<Longrightarrow> length (logits_biases vars) = V
     \<Longrightarrow> length (fully_connected vars x) = V"
  by (simp add: fully_connected_def matmul_row_def)

lemma unrolled_defined:
  assumes nodrop: "mode = Eval \<or> (mode = Train \<and> lstm_dropout_keep_prob cfg = 1)"
    and reg: "length region_aspect_embeddings = length image_embeddings"
    and seq: "length seq_embeddings = length image_embeddings"
             "\<forall>m\<in>set seq_embeddings. length m = T"
    and mask: "length input_mask = length image_embeddings" "\<forall>m\<in>set input_mask. length m = T"
    and tgt: "length target_seqs = length image_embeddings" "\<forall>ts\<in>set target_seqs. length ts = T"
    and valid: "\<forall>ts\<in>set target_seqs. \<forall>t\<in>set ts. t < V"
               "length (logits_weights vars) = V" "length (logits_biases vars) = V"
    and nz: "sum_list (concat input_mask) \<noteq> 0"
  shows "\<exists>logits. unrolled_logits mode cfg vars rng image_embeddings region_aspect_embeddings
                     seq_embeddings target_seqs input_mask n = Some logits"
proof -
  let ?H = "num_lstm_units cfg"
  let ?P = "\<lambda>x s n. (BasicLSTMCell ?H vars x s, n)"
  from nodrop have nd: "mode \<noteq> Train \<or> lstm_dropout_keep_prob cfg = 1"
    and ninf: "mode \<noteq> Inference" by auto
  let ?sc = "map (\<lambda>b. map (\<lambda>t. seq_embeddings ! b ! t @ image_embeddings ! b) [0..<T])
                      [0..<length seq_embeddings]"
  have sc: "seq_embeddings_with_aspect mode image_embeddings seq_embeddings = Some ?sc"
    by (rule seq_context_unrolled [OF ninf seq])
  obtain st where init: "initial_state mode cfg vars rng image_embeddings
                           region_aspect_embeddings n = Some (st, n)"
    unfolding initial_state_def lstm_cell_no_dropout [OF nd] image_embeddings_with_aspect_def
      concat_axis1_def
    using reg by (simp add: split_beta)
  have "input_mask \<noteq> []"
  proof
    assume "input_mask = []"
    with nz show False by simp
  qed
  with mask seq have ne: "?sc \<noteq> []" by auto
  have sc_rect: "\<forall>m\<in>set ?sc. length m = T" by auto
  let ?outs = "fst (fst (dynamic_rnn ?P ?H ?sc (map sum_list input_mask) st n))"
  let ?logits = "map (fully_connected vars) (concat ?outs)"
  have outs_len: "length ?outs = length ?sc" and outs_rect: "\<forall>r\<in>set ?outs. length r = T"
    using dynamic_rnn_shape [OF sc_rect ne] by blast+
  have ll: "length ?logits = length image_embeddings * T"
    using length_concat_uniform [OF outs_rect] outs_len seq by simp
  have lt: "length (concat target_seqs) = length ?logits"
    using length_concat_uniform [OF tgt(2)] tgt(1) ll by simp
  have lm: "length (concat input_mask) = length ?logits"
    using length_concat_uniform [OF mask(2)] mask(1) ll by simp
  have v: "\<forall>i<length ?logits. concat target_seqs ! i < length (?logits ! i)"
  proof (intro allI impI)
    fix i assume i: "i < length ?logits"
    with lt have "i < length (concat target_seqs)" by simp
    then have "concat target_seqs ! i \<in> set (concat target_seqs)" by (rule nth_mem)
    with valid(1) have "concat target_seqs ! i < V" by auto
    moreover have "length (?logits ! i) = V"
      using i fully_connected_length [OF valid(2,3)] by simp
    ultimately show "concat target_seqs ! i < length (?logits ! i)" by simp
  qed
  have "sum_list (map real (concat input_mask)) \<noteq> 0"
    using nz by (simp add: sum_list_real)
  then have "map_option fst (batch_loss ?logits target_seqs input_mask) \<noteq> None"
    unfolding batch_loss_value [OF lt lm v] by (simp add: tf_div_def)
  then obtain loss where loss: "batch_loss ?logits target_seqs input_mask = Some loss" by auto
  have "build_model_unrolled mode cfg vars rng image_embeddings region_aspect_embeddings
          seq_embeddings target_seqs input_mask n = Some ((loss, ?logits), snd (dynamic_rnn ?P ?H ?sc (map sum_list input_mask) st n))"
    unfolding build_model_unrolled_def lstm_cell_no_dropout [OF nd] sc
    using ninf init mask seq loss by (simp add: split_beta Let_def)
  then show ?thesis by (simp add: unrolled_logits_def)
qed

theorem C2_stepwise_equals_unrolled_witness:
  "\<exists>logits steps.
     unrolled_logits Eval witness_config witness_variables (constant_rng (1 / 2))
       [[1], [2]] [[3], [4]] [[[5], [6]], [[7], [8]]] [[0, 1], [1, 0]] [[1, 1], [1, 0]] 0
       = Some logits
   \<and> stepwise_logits witness_config witness_variables (constant_rng 0) [[1]] [[3]] [[5], [6]] 7
       = Some steps
   \<and> length steps = 2 \<and> steps ! 0 = [logits ! 0] \<and> steps ! 1 = [logits ! 1]"
proof -
  have two: "[0..<2] = [0, Suc 0]" by (simp add: upt_rec numeral_2_eq_2)
  have "\<exists>logits. unrolled_logits Eval witness_config witness_variables (constant_rng (1 / 2))
       [[1], [2]] [[3], [4]] [[[5], [6]], [[7], [8]]] [[0, 1], [1, 0]] [[1, 1], [1, 0]] 0
       = Some logits"
    by (rule unrolled_defined [where T = 2 and V = 2])
       (simp_all add: witness_variables_def)
  then obtain logits where
    run: "unrolled_logits Eval witness_config witness_variables (constant_rng (1 / 2))
       [[1], [2]] [[3], [4]] [[[5], [6]], [[7], [8]]] [[0, 1], [1, 0]] [[1, 1], [1, 0]] 0
       = Some logits" by blast
  have w: "length (lstm_kernel witness_variables) = 4 * num_lstm_units witness_config"
          "length (lstm_bias witness_variables) = 4 * num_lstm_units witness_config"
    by (simp_all add: witness_variables_def witness_config_def)
  have s: "\<exists>steps.
          stepwise_logits witness_config witness_variables (constant_rng 0) [[[1], [2]] ! 0]
            [[[3], [4]] ! 0] ([[[5], [6]], [[7], [8]]] ! 0) 7 = Some steps
        \<and> length steps = 2 \<and> steps ! t = [logits ! (0 * 2 + t)]" if "t < 2" for t
    by (rule C2_stepwise_equals_unrolled [where mode = Eval and T = 2 and b = 0, OF _ w _ run])
       (use that in \<open>auto simp: less_Suc_eq numeral_2_eq_2\<close>)
  from s [of 0] s [of 1] run show ?thesis by auto
qed

end
